theory Spec2Isabelle
  imports Main "HOL-Library.Word"
begin

section \<open>Locating and downloading a Java runtime: the model\<close>

text \<open>
  A shallow embedding of \<^verbatim>\<open>javabridge/download_java.py\<close> and
  \<^verbatim>\<open>javabridge/locate.py\<close>. Every function takes the host it runs on (platform
  string, environment, home directory, and the answers of the libraries it calls) and
  the world it changes (the file system and a log of the effects it issues), and
  returns a Python exception as \<open>Inl\<close>. Console output (\<^verbatim>\<open>print\<close>, the
  \<^verbatim>\<open>tqdm\<close> bar) and \<^verbatim>\<open>sys.path.append\<close> are not part of the model.
\<close>

subsection \<open>Python string methods\<close>

fun startswith :: "string \<Rightarrow> string \<Rightarrow> bool" where
  "startswith s [] = True"
| "startswith [] (c # cs) = False"
| "startswith (x # xs) (c # cs) = (x = c \<and> startswith xs cs)"

definition endswith :: "string \<Rightarrow> string \<Rightarrow> bool" where
  "endswith s x = startswith (rev s) (rev x)"

text \<open>\<^verbatim>\<open>s.rfind(sub)\<close>: the highest index at which \<open>sub\<close> occurs, or \<open>-1\<close>.\<close>

definition rfind :: "string \<Rightarrow> string \<Rightarrow> int" where
  "rfind s sub =
     (case filter (\<lambda>i. startswith (drop i s) sub) (rev [0 ..< Suc (length s)]) of
        [] \<Rightarrow> - 1
      | i # _ \<Rightarrow> int i)"

text \<open>\<^verbatim>\<open>s[:k]\<close>: a negative \<open>k\<close> counts from the end.\<close>

definition slice_to :: "string \<Rightarrow> int \<Rightarrow> string" where
  "slice_to s k = (if k < 0 then take (nat (int (length s) + k)) s else take (nat k) s)"

subsection \<open>\<^verbatim>\<open>os.path\<close>\<close>

text \<open>
  \<^verbatim>\<open>os.path\<close> is \<^verbatim>\<open>ntpath\<close> on Windows and \<^verbatim>\<open>posixpath\<close> elsewhere; the
  flag \<open>nt\<close> chooses. Drive letters and UNC prefixes are not split off: the
  components this program joins are relative and without a drive, where
  \<^verbatim>\<open>ntpath\<close> differs from the definitions below only for a left operand that is a
  bare drive or share.
\<close>

type_synonym path = string

definition is_sep :: "bool \<Rightarrow> char \<Rightarrow> bool" where
  "is_sep nt c = (c = CHR ''/'' \<or> (nt \<and> c = CHR 0x5C))"

definition sep :: "bool \<Rightarrow> char" where
  "sep nt = (if nt then CHR 0x5C else CHR ''/'')"

definition path_join :: "bool \<Rightarrow> path \<Rightarrow> path \<Rightarrow> path" where
  "path_join nt a b =
     (if b \<noteq> [] \<and> is_sep nt (hd b) then b
      else if a \<noteq> [] \<and> \<not> is_sep nt (last a) then a @ [sep nt] @ b
      else a @ b)"

definition basename :: "bool \<Rightarrow> path \<Rightarrow> path" where
  "basename nt p = rev (takeWhile (\<lambda>c. \<not> is_sep nt c) (rev p))"

definition dirname :: "bool \<Rightarrow> path \<Rightarrow> path" where
  "dirname nt p =
     (let head = rev (dropWhile (\<lambda>c. \<not> is_sep nt c) (rev p))
      in if head \<noteq> [] \<and> \<not> list_all (is_sep nt) head
         then rev (dropWhile (is_sep nt) (rev head))
         else head)"

text \<open>\<open>under nt d p\<close>: the path \<open>p\<close> is \<open>d\<close> or lies below the directory \<open>d\<close>.\<close>

definition under :: "bool \<Rightarrow> path \<Rightarrow> path \<Rightarrow> bool" where
  "under nt d p =
     (p = d \<or> startswith p (d @ ''/'') \<or> (nt \<and> startswith p (d @ [CHR 0x5C])))"

subsection \<open>The host and the world\<close>

type_synonym byte = "8 word"

datatype node = File "byte list" | Dir

datatype error =
    KeyError string
  | TypeError
  | UnboundLocalError string
  | ConnectionError
  | FileNotFoundError path
  | IsADirectoryError path
  | NotADirectoryError path
  | ShutilError path
  | BadZipFile path

text \<open>
  A response of \<^verbatim>\<open>requests\<close>: its cookies in the order \<^verbatim>\<open>cookies.items()\<close> lists
  them, the chunks \<^verbatim>\<open>iter_content\<close> yields, and whether the transfer breaks off after
  the last of them.
\<close>

record response =
  cookies :: "(string \<times> string) list"
  iter_content :: "byte list list"
  stream_fails :: bool

text \<open>
  The host: \<^verbatim>\<open>sys.platform\<close>, \<^verbatim>\<open>os.environ\<close>, \<^verbatim>\<open>str(Path.home())\<close>, the
  directory \<^verbatim>\<open>tempfile.mkdtemp()\<close> creates, what the download server answers to the
  GET requests of a session (the parameters of all requests so far, the current one
  last), and how \<^verbatim>\<open>zipfile\<close> reads an archive (its members by the relative name
  they are extracted to, or \<open>None\<close> for a file that is no archive).
\<close>

record host =
  sys_platform :: string
  environ :: "string \<rightharpoonup> string"
  home :: path
  mkdtemp_name :: path
  remote :: "(string \<times> string) list list \<Rightarrow> response"
  unzip :: "byte list \<Rightarrow> (path \<times> node) list option"

datatype event =
    HttpGet "(string \<times> string) list"
  | Emit int int
  | Mkdtemp path
  | Mkdir path
  | OpenWrite path
  | WriteChunk path "byte list"
  | Makedirs path
  | Move path path
  | Rmtree path
  | ExtractAll path path
  | Remove path

text \<open>
  The world: what the file system holds at each path string, and the effects issued so
  far, oldest first. The file system is flat: an operation changes the entries it
  names (\<^verbatim>\<open>rmtree\<close> the entries under its argument, \<^verbatim>\<open>extractall\<close> the members of
  the archive); parent directories the operating system would create alongside are not
  tracked.
\<close>

record world =
  fs :: "path \<rightharpoonup> node"
  log :: "event list"

definition is_linux :: "host \<Rightarrow> bool" where
  "is_linux h = startswith (sys_platform h) ''linux''"

definition is_mac :: "host \<Rightarrow> bool" where
  "is_mac h = (sys_platform h = ''darwin'')"

definition is_win :: "host \<Rightarrow> bool" where
  "is_win h = startswith (sys_platform h) ''win''"

text \<open>
  \<^verbatim>\<open>is_win and (os.environ["PROCESSOR_ARCHITECTURE"] == "AMD64")\<close>: the environment is
  read on Windows only, and a missing variable raises.
\<close>

definition is_win64 :: "host \<Rightarrow> error + bool" where
  "is_win64 h =
     (if is_win h
      then (case environ h ''PROCESSOR_ARCHITECTURE'' of
              None \<Rightarrow> Inl (KeyError ''PROCESSOR_ARCHITECTURE'')
            | Some v \<Rightarrow> Inr (v = ''AMD64''))
      else Inr False)"

definition joinp :: "host \<Rightarrow> path \<Rightarrow> path \<Rightarrow> path" where
  "joinp h a b = path_join (is_win h) a b"

definition os_path_exists :: "world \<Rightarrow> path \<Rightarrow> bool" where
  "os_path_exists w p = (fs w p \<noteq> None)"

definition os_path_isfile :: "world \<Rightarrow> path \<Rightarrow> bool" where
  "os_path_isfile w p = (case fs w p of Some (File b) \<Rightarrow> True | _ \<Rightarrow> False)"

definition os_path_isdir :: "world \<Rightarrow> path \<Rightarrow> bool" where
  "os_path_isdir w p = (fs w p = Some Dir)"

definition emit_event :: "event \<Rightarrow> world \<Rightarrow> world" where
  "emit_event e w = w\<lparr>log := log w @ [e]\<rparr>"

text \<open>
  Sequencing with exceptions: the second computation runs in the world the first one
  left, unless the first one raised.
\<close>

definition and_then ::
  "(world \<Rightarrow> (error + 'a) \<times> world) \<Rightarrow> ('a \<Rightarrow> world \<Rightarrow> (error + 'b) \<times> world)
     \<Rightarrow> world \<Rightarrow> (error + 'b) \<times> world" where
  "and_then m f w = (case m w of (Inl e, w') \<Rightarrow> (Inl e, w') | (Inr x, w') \<Rightarrow> f x w')"

definition return_value :: "'a \<Rightarrow> world \<Rightarrow> (error + 'a) \<times> world" where
  "return_value x w = (Inr x, w)"

subsection \<open>File-system and library calls\<close>

definition tempfile_mkdtemp :: "host \<Rightarrow> world \<Rightarrow> path \<times> world" where
  "tempfile_mkdtemp h w =
     (mkdtemp_name h,
      emit_event (Mkdtemp (mkdtemp_name h)) (w\<lparr>fs := (fs w)(mkdtemp_name h \<mapsto> Dir)\<rparr>))"

definition os_mkdir :: "path \<Rightarrow> world \<Rightarrow> world" where
  "os_mkdir p w = emit_event (Mkdir p) (w\<lparr>fs := (fs w)(p \<mapsto> Dir)\<rparr>)"

text \<open>\<^verbatim>\<open>open(p, "wb")\<close>: the file is created empty, or truncated.\<close>

definition open_wb :: "bool \<Rightarrow> path \<Rightarrow> world \<Rightarrow> (error + unit) \<times> world" where
  "open_wb nt p w =
     (if p = [] then (Inl (FileNotFoundError p), w)
      else if is_sep nt (last p) \<or> os_path_isdir w p then (Inl (IsADirectoryError p), w)
      else (Inr (), emit_event (OpenWrite p) (w\<lparr>fs := (fs w)(p \<mapsto> File [])\<rparr>)))"

definition file_write :: "path \<Rightarrow> byte list \<Rightarrow> world \<Rightarrow> world" where
  "file_write p chunk w =
     emit_event (WriteChunk p chunk)
       (w\<lparr>fs := (fs w)(p \<mapsto> File ((case fs w p of Some (File b) \<Rightarrow> b | _ \<Rightarrow> []) @ chunk))\<rparr>)"

definition os_makedirs :: "path \<Rightarrow> world \<Rightarrow> (error + unit) \<times> world" where
  "os_makedirs p w =
     (if p = [] then (Inl (FileNotFoundError p), w)
      else (Inr (), emit_event (Makedirs p) (w\<lparr>fs := (fs w)(p \<mapsto> Dir)\<rparr>)))"

text \<open>
  \<^verbatim>\<open>shutil.move(src, dst)\<close>: a destination that is an existing directory receives the
  source under its own base name, and an entry of that name already there is an error.
\<close>

definition shutil_move :: "bool \<Rightarrow> path \<Rightarrow> path \<Rightarrow> world \<Rightarrow> (error + unit) \<times> world" where
  "shutil_move nt src dst w =
     (let real_dst = (if os_path_isdir w dst then path_join nt dst (basename nt src) else dst)
      in if os_path_isdir w dst \<and> os_path_exists w real_dst then (Inl (ShutilError real_dst), w)
         else if os_path_isfile w (dirname nt real_dst) then (Inl (NotADirectoryError real_dst), w)
         else if real_dst = src then (Inr (), emit_event (Move src dst) w)
         else (Inr (),
               emit_event (Move src dst)
                 (w\<lparr>fs := (fs w)(real_dst := fs w src, src := None)\<rparr>)))"

definition shutil_rmtree :: "bool \<Rightarrow> path \<Rightarrow> world \<Rightarrow> world" where
  "shutil_rmtree nt p w =
     emit_event (Rmtree p) (w\<lparr>fs := (\<lambda>q. if under nt p q then None else fs w q)\<rparr>)"

definition os_remove :: "path \<Rightarrow> world \<Rightarrow> (error + unit) \<times> world" where
  "os_remove p w =
     (case fs w p of
        None \<Rightarrow> (Inl (FileNotFoundError p), w)
      | Some Dir \<Rightarrow> (Inl (IsADirectoryError p), w)
      | Some (File b) \<Rightarrow> (Inr (), emit_event (Remove p) (w\<lparr>fs := (fs w)(p := None)\<rparr>)))"

fun write_members :: "host \<Rightarrow> path \<Rightarrow> (path \<times> node) list \<Rightarrow> (path \<rightharpoonup> node) \<Rightarrow> (path \<rightharpoonup> node)" where
  "write_members h dest [] f = f"
| "write_members h dest ((name, x) # ms) f = write_members h dest ms (f(joinp h dest name \<mapsto> x))"

subsection \<open>\<^verbatim>\<open>download_java.py\<close>\<close>

fun get_confirm_token_items :: "(string \<times> string) list \<Rightarrow> string option" where
  "get_confirm_token_items [] = None"
| "get_confirm_token_items ((key, v) # rest) =
     (if startswith key ''download_warning'' then Some v else get_confirm_token_items rest)"

definition get_confirm_token :: "response \<Rightarrow> string option" where
  "get_confirm_token r = get_confirm_token_items (cookies r)"

text \<open>The loop over the chunks: an empty chunk is skipped, the others are written and reported.\<close>

fun write_chunks :: "bool \<Rightarrow> path \<Rightarrow> byte list list \<Rightarrow> world \<Rightarrow> world" where
  "write_chunks progress f [] w = w"
| "write_chunks progress f (chunk # rest) w =
     write_chunks progress f rest
       (if chunk \<noteq> []
        then (let w' = file_write f chunk w
              in if progress then emit_event (Emit (- 1) (int (length chunk))) w' else w')
        else w)"

text \<open>
  \<open>file_size\<close> is \<open>None\<close> for Python's \<^verbatim>\<open>None\<close>; \<open>progress\<close> tells whether a sink
  was passed, and its \<^verbatim>\<open>emit\<close> calls are the \<open>Emit\<close> events of the log.
\<close>

definition save_response_content ::
  "host \<Rightarrow> response \<Rightarrow> path \<Rightarrow> int option \<Rightarrow> bool \<Rightarrow> world \<Rightarrow> (error + unit) \<times> world" where
  "save_response_content h r destination file_size progress w =
     (let nt = is_win h;
          (temp_folder, w1) = tempfile_mkdtemp h w;
          w2 = (if \<not> os_path_exists w1 temp_folder then os_mkdir temp_folder w1 else w1);
          temp_dst = path_join nt temp_folder (basename nt destination);
          w3 = (case file_size of
                  Some n \<Rightarrow> if progress then emit_event (Emit n (- 1)) w2 else w2
                | None \<Rightarrow> w2)
      in and_then (open_wb nt temp_dst)
           (\<lambda>_ w4.
              let w5 = write_chunks progress temp_dst (iter_content r) w4;
                  destination_dir = dirname nt destination
              in if stream_fails r then (Inl ConnectionError, w5)
                 else and_then
                        (if \<not> os_path_exists w5 destination_dir
                         then os_makedirs destination_dir else return_value ())
                        (\<lambda>_. and_then (shutil_move nt temp_dst destination)
                           (\<lambda>_ w7. (Inr (), shutil_rmtree nt temp_folder w7))) w5) w3)"

definition download_from_gdrive ::
  "host \<Rightarrow> string \<Rightarrow> path \<Rightarrow> int option \<Rightarrow> bool \<Rightarrow> world \<Rightarrow> (error + unit) \<times> world" where
  "download_from_gdrive h ident destination file_size progress w =
     (let params1 = [(''id'', ident)];
          w1 = emit_event (HttpGet params1) w;
          response1 = remote h [params1];
          token = get_confirm_token response1
      in if (case token of None \<Rightarrow> False | Some t \<Rightarrow> t \<noteq> [])
         then (let params2 = [(''id'', ident), (''confirm'', the token)];
                   w2 = emit_event (HttpGet params2) w1;
                   response2 = remote h [params1, params2]
               in save_response_content h response2 destination file_size progress w2)
         else save_response_content h response1 destination file_size progress w1)"

definition extract_zip :: "host \<Rightarrow> path \<Rightarrow> path \<Rightarrow> world \<Rightarrow> (error + unit) \<times> world" where
  "extract_zip h zip_path extract_to_path w =
     (case fs w zip_path of
        None \<Rightarrow> (Inl (FileNotFoundError zip_path), w)
      | Some Dir \<Rightarrow> (Inl (IsADirectoryError zip_path), w)
      | Some (File b) \<Rightarrow>
          (case unzip h b of
             None \<Rightarrow> (Inl (BadZipFile zip_path), w)
           | Some members \<Rightarrow>
               (Inr (),
                emit_event (ExtractAll zip_path extract_to_path)
                  (w\<lparr>fs := write_members h extract_to_path members (fs w)\<rparr>))))"

definition get_acdc_java_path :: "host \<Rightarrow> path \<times> path" where
  "get_acdc_java_path h = (joinp h (home h) ''acdc-java'', joinp h (home h) ''.acdc-java'')"

definition get_jdk_info :: "host \<Rightarrow> path \<times> path \<times> string \<times> int" where
  "get_jdk_info h =
     (let file_id = ''1G6SNk5vESqgdxob5UQv87PgVpIJa_dTe'';
          file_size = 135524352;
          foldername = ''win64'';
          jdk_name = ''jdk1.8.0_321'';
          (acdc_java_path, dot_acdc_java_path) = get_acdc_java_path h;
          java_path = joinp h acdc_java_path foldername;
          jdk_path = joinp h java_path jdk_name
      in (java_path, jdk_path, file_id, file_size))"

text \<open>
  The platform table: folder name, runtime name, remote id and size. On a Windows
  that is not 64-bit the source returns nothing (\<open>Inr None\<close>); on a platform that is
  none of the four, \<^verbatim>\<open>foldername\<close> is unbound when it is read.
\<close>

definition java_profile :: "host \<Rightarrow> bool \<Rightarrow> error + (string \<times> string \<times> string \<times> int) option" where
  "java_profile h win64 =
     (if win64 then Inr (Some (''win64'', ''jre1.8.0_301'', ''1G5zsMusJsB6to_bA-8wT5FHJ6yoS2oCu'', 78397719))
      else if is_mac h then Inr (Some (''macOS'', ''jre1.8.0_301'', ''1G487QwDlEUJVFLfJkuxvTkFPY_I0XTb8'', 108796810))
      else if is_linux h then Inr (Some (''linux'', ''jre1.8.0_301'', ''1Fz8krhOS8JsX-GhkRDeMiEnAIWqZmCfP'', 92145253))
      else if is_win h then Inr None
      else Inl (UnboundLocalError ''foldername''))"

definition get_java_info :: "host \<Rightarrow> error + (path \<times> path \<times> string \<times> int) option" where
  "get_java_info h =
     (case is_win64 h of
        Inl e \<Rightarrow> Inl e
      | Inr win64 \<Rightarrow>
          (case java_profile h win64 of
             Inl e \<Rightarrow> Inl e
           | Inr None \<Rightarrow> Inr None
           | Inr (Some (foldername, jre_name, file_id, file_size)) \<Rightarrow>
               (let (acdc_java_path, dot_acdc_java_path) = get_acdc_java_path h;
                    java_path = joinp h acdc_java_path foldername;
                    jre_path = joinp h java_path jre_name
                in Inr (Some (java_path, jre_path, file_id, file_size)))))"

text \<open>
  Unpacking the \<^verbatim>\<open>None\<close> that \<^verbatim>\<open>get_java_info\<close> returned is a
  \<^verbatim>\<open>TypeError\<close>. The progress sink is never passed on by the two installers.
\<close>

definition download_java :: "host \<Rightarrow> world \<Rightarrow> (error + path) \<times> world" where
  "download_java h w =
     (case get_java_info h of
        Inl e \<Rightarrow> (Inl e, w)
      | Inr None \<Rightarrow> (Inl TypeError, w)
      | Inr (Some (java_path, jre_path, file_id, file_size)) \<Rightarrow>
          (let zip_dst = joinp h java_path ''java_temp.zip''
           in if os_path_exists w jre_path then (Inr jre_path, w)
              else
                (let jre_name = basename (is_win h) jre_path;
                     os_foldername = basename (is_win h) (dirname (is_win h) jre_path);
                     (unused, dot_acdc_java_path) = get_acdc_java_path h;
                     jre_old_path = joinp h (joinp h dot_acdc_java_path os_foldername) jre_name
                 in if os_path_exists w jre_old_path then (Inr jre_old_path, w)
                    else
                      and_then
                        (if \<not> os_path_exists w java_path
                         then os_makedirs java_path else return_value ())
                        (\<lambda>_. and_then (download_from_gdrive h file_id zip_dst (Some file_size) False)
                           (\<lambda>_. and_then (extract_zip h zip_dst java_path)
                              (\<lambda>_. and_then (os_remove zip_dst)
                                 (\<lambda>_. return_value jre_path)))) w)))"

definition download_jdk :: "host \<Rightarrow> world \<Rightarrow> (error + path) \<times> world" where
  "download_jdk h w =
     (let (java_path, jdk_path, file_id, file_size) = get_jdk_info h;
          zip_dst = joinp h java_path ''jdk_temp.zip''
      in if os_path_exists w jdk_path then (Inr jdk_path, w)
         else
           (let jdk_name = basename (is_win h) jdk_path;
                os_foldername = basename (is_win h) (dirname (is_win h) jdk_path);
                (unused, dot_acdc_java_path) = get_acdc_java_path h;
                jdk_old_path = joinp h (joinp h dot_acdc_java_path os_foldername) jdk_name
            in if os_path_exists w jdk_old_path then (Inr jdk_old_path, w)
               else
                 and_then (download_from_gdrive h file_id zip_dst (Some file_size) False)
                   (\<lambda>_. and_then (extract_zip h zip_dst java_path)
                      (\<lambda>_. and_then (os_remove zip_dst)
                         (\<lambda>_. return_value jdk_path))) w))"

subsection \<open>\<^verbatim>\<open>locate.py\<close>\<close>

definition find_javahome :: "host \<Rightarrow> world \<Rightarrow> (error + path) \<times> world" where
  "find_javahome h w =
     (case environ h ''JAVA_HOME'' of
        Some v \<Rightarrow> (Inr v, w)
      | None \<Rightarrow> download_java h w)"

text \<open>
  \<^verbatim>\<open>find_jdk\<close> returns a path, or nothing (\<open>None\<close>) when no branch is taken.
\<close>

definition find_jdk :: "host \<Rightarrow> world \<Rightarrow> (error + path option) \<times> world" where
  "find_jdk h w =
     (case environ h ''JDK_HOME'' of
        Some v \<Rightarrow> (Inr (Some v), w)
      | None \<Rightarrow>
          if is_linux h
          then and_then (find_javahome h)
                 (\<lambda>jdk_home.
                    return_value
                      (Some (if endswith jdk_home ''jre'' \<or> endswith jdk_home ''jre/''
                             then slice_to jdk_home (rfind jdk_home ''jre'')
                             else jdk_home))) w
          else if is_mac h
          then and_then (find_javahome h) (\<lambda>p. return_value (Some p)) w
          else if is_win h
          then and_then (download_jdk h) (\<lambda>p. return_value (Some p)) w
          else (Inr None, w))"

definition jvm_library_name :: "host \<Rightarrow> string" where
  "jvm_library_name h =
     (if is_win h then [] else ''lib'') @ ''jvm'' @
     (if is_win h then ''.dll'' else if is_mac h then ''.dylib'' else ''.so'')"

text \<open>The innermost loop, over \<^verbatim>\<open>('client', 'server')\<close>; a hit leaves all three loops.\<close>

fun look_places :: "host \<Rightarrow> world \<Rightarrow> path \<Rightarrow> path \<Rightarrow> string \<Rightarrow> string list \<Rightarrow> (path \<times> path) option" where
  "look_places h w jre_bin jre_libexec arch [] = None"
| "look_places h w jre_bin jre_libexec arch (place_to_look # rest) =
     (let jvm_dir = joinp h (joinp h jre_libexec arch) place_to_look;
          jvm_so = joinp h jvm_dir (jvm_library_name h)
      in if os_path_isfile w jvm_so then Some (jre_bin, jvm_so)
         else look_places h w jre_bin jre_libexec arch rest)"

fun look_arches :: "host \<Rightarrow> world \<Rightarrow> path \<Rightarrow> path \<Rightarrow> string list \<Rightarrow> (path \<times> path) option" where
  "look_arches h w jre_bin jre_libexec [] = None"
| "look_arches h w jre_bin jre_libexec (arch # rest) =
     (case look_places h w jre_bin jre_libexec arch [''client'', ''server''] of
        Some hit \<Rightarrow> Some hit
      | None \<Rightarrow> look_arches h w jre_bin jre_libexec rest)"

text \<open>
  The outer loop. \<open>jre_bin\<close> is the variable of that name as the previous round left
  it (\<open>None\<close> while unbound); the \<^verbatim>\<open>return (jre_bin, None)\<close> after the loop reads it.
\<close>

fun look_homes :: "host \<Rightarrow> world \<Rightarrow> path option \<Rightarrow> path list \<Rightarrow> error + (path \<times> path option)" where
  "look_homes h w jre_bin [] =
     (case jre_bin of
        None \<Rightarrow> Inl (UnboundLocalError ''jre_bin'')
      | Some b \<Rightarrow> Inr (b, None))"
| "look_homes h w jre_bin (jre_home # rest) =
     (let jre_bin' = joinp h jre_home ''bin'';
          jre_libexec = joinp h jre_home (if is_win h then ''bin'' else ''lib'');
          arches = (if is_linux h then [''amd64'', ''i386'', []] else [[]])
      in case look_arches h w jre_bin' jre_libexec arches of
           Some (b, so) \<Rightarrow> Inr (b, Some so)
         | None \<Rightarrow> look_homes h w (Some jre_bin') rest)"

definition find_jre_bin_jdk_so :: "host \<Rightarrow> world \<Rightarrow> (error + (path \<times> path option)) \<times> world" where
  "find_jre_bin_jdk_so h w =
     and_then (find_javahome h)
       (\<lambda>java_home w'.
          (look_homes h w' None
             [java_home, joinp h java_home ''jre'', joinp h java_home ''default-java'',
              joinp h java_home ''default-runtime''], w')) w"

subsection \<open>The installation layout and the network log\<close>

text \<open>
  The runtime directory of a platform folder under the primary base directory
  \<^verbatim>\<open><home>/acdc-java\<close>, and the equivalent directory under the legacy base directory
  \<^verbatim>\<open><home>/.acdc-java\<close>.
\<close>

definition primary_runtime_dir :: "host \<Rightarrow> string \<Rightarrow> string \<Rightarrow> path" where
  "primary_runtime_dir h folder name = joinp h (joinp h (joinp h (home h) ''acdc-java'') folder) name"

definition legacy_runtime_dir :: "host \<Rightarrow> string \<Rightarrow> string \<Rightarrow> path" where
  "legacy_runtime_dir h folder name = joinp h (joinp h (joinp h (home h) ''.acdc-java'') folder) name"

definition plain_name :: "bool \<Rightarrow> string \<Rightarrow> bool" where
  "plain_name nt name = (name \<noteq> [] \<and> list_all (\<lambda>c. \<not> is_sep nt c) name)"

text \<open>The GET requests of a log, oldest first.\<close>

fun http_requests :: "event list \<Rightarrow> (string \<times> string) list list" where
  "http_requests [] = []"
| "http_requests (HttpGet params # es) = params # http_requests es"
| "http_requests (e # es) = http_requests es"

subsection \<open>Sample hosts and worlds\<close>

definition sample_response :: response where
  "sample_response = \<lparr>cookies = [], iter_content = [[1, 2], [], [3]], stream_fails = False\<rparr>"

definition linux_host :: host where
  "linux_host =
     \<lparr>sys_platform = ''linux'', environ = Map.empty, home = ''/home/u'',
      mkdtemp_name = ''/tmp/tmpq1'', remote = (\<lambda>_. sample_response),
      unzip = (\<lambda>_. Some [(''jre1.8.0_301'', Dir)])\<rparr>"

definition win32_host :: host where
  "win32_host =
     linux_host\<lparr>sys_platform := ''win32'', environ := [''PROCESSOR_ARCHITECTURE'' \<mapsto> ''x86''],
       home := ''C:/Users/u''\<rparr>"

definition empty_world :: world where
  "empty_world = \<lparr>fs = Map.empty, log = []\<rparr>"

definition installed_world :: world where
  "installed_world =
     \<lparr>fs = [''/home/u/acdc-java/linux/jre1.8.0_301'' \<mapsto> Dir,
             ''/home/u/acdc-java/win64/jdk1.8.0_321'' \<mapsto> Dir],
      log = []\<rparr>"

definition legacy_world :: world where
  "legacy_world =
     \<lparr>fs = [''/home/u/.acdc-java/linux/jre1.8.0_301'' \<mapsto> Dir,
             ''/home/u/.acdc-java/win64/jdk1.8.0_321'' \<mapsto> Dir],
      log = []\<rparr>"

text \<open>
  Stripping a trailing \<^verbatim>\<open>jre\<close> path segment, as the specification words it for
  POSIX paths: the last segment is exactly \<^verbatim>\<open>jre\<close>, with or without a closing
  separator, and what is left is the path up to that segment.
\<close>

definition has_trailing_jre_segment :: "path \<Rightarrow> bool" where
  "has_trailing_jre_segment p =
     (p = ''jre'' \<or> endswith p ''/jre'' \<or> p = ''jre/'' \<or> endswith p ''/jre/'')"

definition strip_trailing_jre :: "path \<Rightarrow> path" where
  "strip_trailing_jre p =
     (if p = ''jre'' \<or> endswith p ''/jre'' then take (length p - 3) p
      else if p = ''jre/'' \<or> endswith p ''/jre/'' then take (length p - 4) p
      else p)"

definition mac_jre_host :: host where
  "mac_jre_host = linux_host\<lparr>sys_platform := ''darwin'', environ := [''JAVA_HOME'' \<mapsto> ''/opt/java/jre'']\<rparr>"

definition linux_jre_host :: host where
  "linux_jre_host = linux_host\<lparr>environ := [''JAVA_HOME'' \<mapsto> ''/opt/java/jre'']\<rparr>"

definition linux_jdk_host :: host where
  "linux_jdk_host = linux_host\<lparr>environ := [''JAVA_HOME'' \<mapsto> ''/opt/java/jdk8'']\<rparr>"

text \<open>
  The candidate locations of the JVM library in the order the specification lists
  them: the JRE root, then its \<^verbatim>\<open>jre\<close>, \<^verbatim>\<open>default-java\<close> and
  \<^verbatim>\<open>default-runtime\<close> subdirectories; for each, the library directory, the
  architecture subfolders (Linux only: \<^verbatim>\<open>amd64\<close>, \<^verbatim>\<open>i386\<close>, none), and
  \<^verbatim>\<open>client\<close> before \<^verbatim>\<open>server\<close>. Each candidate is paired with the
  \<^verbatim>\<open>bin\<close> directory of its root.
\<close>

definition home_candidates :: "host \<Rightarrow> path \<Rightarrow> (path \<times> path) list" where
  "home_candidates h jre_home =
     concat (map (\<lambda>arch.
               map (\<lambda>place.
                      (joinp h jre_home ''bin'',
                       joinp h
                         (joinp h
                            (joinp h (joinp h jre_home (if is_win h then ''bin'' else ''lib'')) arch)
                            place)
                         (jvm_library_name h)))
                 [''client'', ''server''])
            (if is_linux h then [''amd64'', ''i386'', []] else [[]]))"

definition jvm_candidates :: "host \<Rightarrow> path \<Rightarrow> (path \<times> path) list" where
  "jvm_candidates h java_home =
     concat (map (home_candidates h)
       [java_home, joinp h java_home ''jre'', joinp h java_home ''default-java'',
        joinp h java_home ''default-runtime''])"

definition has_library :: "world \<Rightarrow> path \<times> path \<Rightarrow> bool" where
  "has_library w c = os_path_isfile w (snd c)"

definition linux_java_home_host :: host where
  "linux_java_home_host = linux_host\<lparr>environ := [''JAVA_HOME'' \<mapsto> ''/opt/java'']\<rparr>"

definition jvm_world :: world where
  "jvm_world =
     \<lparr>fs = [''/opt/java'' \<mapsto> Dir,
             ''/opt/java/jre/lib/server/libjvm.so'' \<mapsto> File [],
             ''/opt/java/jre/lib/amd64/server/libjvm.so'' \<mapsto> File []],
      log = []\<rparr>"

definition bare_jre_world :: world where
  "bare_jre_world = \<lparr>fs = [''/opt/java'' \<mapsto> Dir], log = []\<rparr>"

text \<open>
  Projections of the log: the calls on the progress sink together with the chunk
  writes, in order; the chunks written; and, for two worlds of one run, what a
  projection gained between them.
\<close>

fun sink_and_writes :: "event list \<Rightarrow> event list" where
  "sink_and_writes [] = []"
| "sink_and_writes (Emit a b # es) = Emit a b # sink_and_writes es"
| "sink_and_writes (WriteChunk p c # es) = WriteChunk p c # sink_and_writes es"
| "sink_and_writes (e # es) = sink_and_writes es"

fun written_chunks :: "event list \<Rightarrow> byte list list" where
  "written_chunks [] = []"
| "written_chunks (WriteChunk p c # es) = c # written_chunks es"
| "written_chunks (e # es) = written_chunks es"

definition sink_and_writes_during :: "world \<Rightarrow> world \<Rightarrow> event list" where
  "sink_and_writes_during w w' = drop (length (sink_and_writes (log w))) (sink_and_writes (log w'))"

definition chunks_written_during :: "world \<Rightarrow> world \<Rightarrow> byte list list" where
  "chunks_written_during w w' = drop (length (written_chunks (log w))) (written_chunks (log w'))"

definition requests_during :: "world \<Rightarrow> world \<Rightarrow> (string \<times> string) list list" where
  "requests_during w w' = drop (length (http_requests (log w))) (http_requests (log w'))"

text \<open>The temporary file of a download to \<open>destination\<close>, and whether it can be opened.\<close>

definition temp_dst_of :: "host \<Rightarrow> path \<Rightarrow> path" where
  "temp_dst_of h destination =
     path_join (is_win h) (mkdtemp_name h) (basename (is_win h) destination)"

definition temp_opens :: "host \<Rightarrow> path \<Rightarrow> world \<Rightarrow> bool" where
  "temp_opens h destination w =
     (temp_dst_of h destination \<noteq> []
      \<and> \<not> is_sep (is_win h) (last (temp_dst_of h destination))
      \<and> ((fs w)(mkdtemp_name h \<mapsto> Dir)) (temp_dst_of h destination) \<noteq> Some Dir)"

definition start_emission :: "int option \<Rightarrow> bool \<Rightarrow> event list" where
  "start_emission file_size progress =
     (case file_size of Some n \<Rightarrow> if progress then [Emit n (- 1)] else [] | None \<Rightarrow> [])"

text \<open>
  The stages of \<^verbatim>\<open>save_response_content\<close>, named for the proofs: the world in which
  the temporary file is opened, the world in which the first chunk is written, and the
  steps after the transfer.
\<close>

definition before_open :: "host \<Rightarrow> int option \<Rightarrow> bool \<Rightarrow> world \<Rightarrow> world" where
  "before_open h file_size progress w =
     w\<lparr>fs := (fs w)(mkdtemp_name h \<mapsto> Dir),
       log := log w @ [Mkdtemp (mkdtemp_name h)] @ start_emission file_size progress\<rparr>"

definition after_open :: "host \<Rightarrow> path \<Rightarrow> int option \<Rightarrow> bool \<Rightarrow> world \<Rightarrow> world" where
  "after_open h destination file_size progress w =
     w\<lparr>fs := (fs w)(mkdtemp_name h \<mapsto> Dir, temp_dst_of h destination \<mapsto> File []),
       log := log w @ [Mkdtemp (mkdtemp_name h)] @ start_emission file_size progress
                @ [OpenWrite (temp_dst_of h destination)]\<rparr>"

definition finish_save :: "host \<Rightarrow> path \<Rightarrow> world \<Rightarrow> (error + unit) \<times> world" where
  "finish_save h destination w5 =
     and_then
       (if \<not> os_path_exists w5 (dirname (is_win h) destination)
        then os_makedirs (dirname (is_win h) destination) else return_value ())
       (\<lambda>_. and_then (shutil_move (is_win h) (temp_dst_of h destination) destination)
          (\<lambda>_ w7. (Inr (), shutil_rmtree (is_win h) (mkdtemp_name h) w7))) w5"

text \<open>
  The confirmation step as the specification words it: the first cookie whose key is
  prefixed \<^verbatim>\<open>download_warning\<close>; the requests of a session; and the response whose
  body is saved. The session is reissued only for a cookie value that Python counts
  as true, that is, a non-empty one.
\<close>

definition warning_cookie :: "response \<Rightarrow> (string \<times> string) option" where
  "warning_cookie r = find (\<lambda>c. startswith (fst c) ''download_warning'') (cookies r)"

definition reissued :: "host \<Rightarrow> string \<Rightarrow> bool" where
  "reissued h ident =
     (case warning_cookie (remote h [[(''id'', ident)]]) of
        None \<Rightarrow> False
      | Some c \<Rightarrow> snd c \<noteq> [])"

definition session_requests :: "host \<Rightarrow> string \<Rightarrow> (string \<times> string) list list" where
  "session_requests h ident =
     (if reissued h ident
      then [[(''id'', ident)],
            [(''id'', ident),
             (''confirm'', snd (the (warning_cookie (remote h [[(''id'', ident)]]))))]]
      else [[(''id'', ident)]])"

definition saved_response :: "host \<Rightarrow> string \<Rightarrow> response" where
  "saved_response h ident = remote h (session_requests h ident)"

definition empty_token_host :: host where
  "empty_token_host =
     linux_host\<lparr>remote := (\<lambda>reqs.
        if length reqs = 1
        then \<lparr>cookies = [(''NID'', ''511''), (''download_warning_13058876669334088843'', [])],
              iter_content = [[1, 2], [], [3]], stream_fails = False\<rparr>
        else \<lparr>cookies = [], iter_content = [[7, 7, 7]], stream_fails = False\<rparr>)\<rparr>"

definition token_host :: host where
  "token_host =
     linux_host\<lparr>remote := (\<lambda>reqs.
        if length reqs = 1
        then \<lparr>cookies = [(''NID'', ''511''), (''download_warning_13058876669334088843'', ''Xy4p'')],
              iter_content = [[1, 2], [], [3]], stream_fails = False\<rparr>
        else \<lparr>cookies = [], iter_content = [[7, 7, 7]], stream_fails = False\<rparr>)\<rparr>"

text \<open>
  What \<^verbatim>\<open>tempfile.mkdtemp\<close> promises, as far as a download to \<open>destination\<close> needs
  it: a directory path without a trailing separator, new, so that the destination
  chosen beforehand does not lie in it.
\<close>

definition temp_dir_fresh :: "host \<Rightarrow> path \<Rightarrow> bool" where
  "temp_dir_fresh h destination =
     (mkdtemp_name h \<noteq> []
      \<and> \<not> is_sep (is_win h) (last (mkdtemp_name h))
      \<and> \<not> under (is_win h) (mkdtemp_name h) destination)"

definition dir_dest_world :: world where
  "dir_dest_world = \<lparr>fs = [''/data'' \<mapsto> Dir, ''/data/out'' \<mapsto> Dir], log = []\<rparr>"

definition data_world :: world where
  "data_world = \<lparr>fs = [''/data'' \<mapsto> Dir], log = []\<rparr>"

text \<open>
  The paths an effect writes to; the places a download may write to (the primary base
  directory \<^verbatim>\<open><home>/acdc-java\<close> and the temporary directory); and what is assumed
  of the libraries: the temporary directory is a directory path without a trailing
  separator that neither contains the legacy directory nor lies in it, and an archive
  member is extracted under a relative name.
\<close>

fun write_targets :: "event \<Rightarrow> path list" where
  "write_targets (HttpGet params) = []"
| "write_targets (Emit a b) = []"
| "write_targets (Mkdtemp p) = [p]"
| "write_targets (Mkdir p) = [p]"
| "write_targets (OpenWrite p) = [p]"
| "write_targets (WriteChunk p c) = [p]"
| "write_targets (Makedirs p) = [p]"
| "write_targets (Move src dst) = [src, dst]"
| "write_targets (Rmtree p) = [p]"
| "write_targets (ExtractAll archive dst) = [dst]"
| "write_targets (Remove p) = [p]"

definition writable :: "host \<Rightarrow> path \<Rightarrow> bool" where
  "writable h q =
     (under (is_win h) (fst (get_acdc_java_path h)) q \<or> under (is_win h) (mkdtemp_name h) q)"

definition temp_dir_apart :: "host \<Rightarrow> bool" where
  "temp_dir_apart h =
     (mkdtemp_name h \<noteq> []
      \<and> \<not> is_sep (is_win h) (last (mkdtemp_name h))
      \<and> \<not> under (is_win h) (mkdtemp_name h) (snd (get_acdc_java_path h))
      \<and> \<not> under (is_win h) (snd (get_acdc_java_path h)) (mkdtemp_name h))"

definition relative_name :: "bool \<Rightarrow> path \<Rightarrow> bool" where
  "relative_name nt name = (name = [] \<or> \<not> is_sep nt (hd name))"

definition archive_names_relative :: "host \<Rightarrow> bool" where
  "archive_names_relative h =
     (\<forall>b ms. unzip h b = Some ms \<longrightarrow> list_all (\<lambda>m. relative_name (is_win h) (fst m)) ms)"

text \<open>
  \<open>keeps h w0 w\<close>: since the world \<open>w0\<close>, nothing under the legacy directory has
  changed, and every effect issued wrote only to writable places.
\<close>

definition keeps :: "host \<Rightarrow> world \<Rightarrow> world \<Rightarrow> bool" where
  "keeps h w0 w =
     ((\<forall>p. under (is_win h) (snd (get_acdc_java_path h)) p \<longrightarrow> fs w p = fs w0 p)
      \<and> length (log w0) \<le> length (log w)
      \<and> list_all (\<lambda>e. list_all (writable h) (write_targets e)) (drop (length (log w0)) (log w)))"

definition stale_legacy_world :: world where
  "stale_legacy_world = \<lparr>fs = [''/home/u/.acdc-java/notes.txt'' \<mapsto> File [9]], log = []\<rparr>"

section \<open>Properties\<close>

subsection \<open>Paths\<close>

lemma is_sep_sep: "is_sep nt (sep nt)"
  by (simp add: is_sep_def sep_def)

lemma plain_name_hd: "plain_name nt name \<Longrightarrow> \<not> is_sep nt (hd name)"
  by (cases name) (simp_all add: plain_name_def)

lemma plain_name_last: "plain_name nt name \<Longrightarrow> \<not> is_sep nt (last name)"
  by (auto simp: plain_name_def list_all_iff)

lemma takeWhile_plain:
  "list_all (\<lambda>c. \<not> is_sep nt c) name \<Longrightarrow>
     takeWhile (\<lambda>c. \<not> is_sep nt c) (rev name @ rest) = rev name @ takeWhile (\<lambda>c. \<not> is_sep nt c) rest"
  by (rule takeWhile_append2) (simp add: list_all_iff)

lemma dropWhile_plain:
  "list_all (\<lambda>c. \<not> is_sep nt c) name \<Longrightarrow>
     dropWhile (\<lambda>c. \<not> is_sep nt c) (rev name @ rest) = dropWhile (\<lambda>c. \<not> is_sep nt c) rest"
  by (rule dropWhile_append2) (simp add: list_all_iff)

lemma takeWhile_rev_sep_last:
  "a = [] \<or> is_sep nt (last a) \<Longrightarrow> takeWhile (\<lambda>c. \<not> is_sep nt c) (rev a) = []"
  by (cases a rule: rev_cases) auto

lemma basename_path_join:
  assumes "plain_name nt name"
  shows "basename nt (path_join nt a name) = name"
proof -
  have pl: "list_all (\<lambda>c. \<not> is_sep nt c) name" and ne: "name \<noteq> []"
    using assms by (simp_all add: plain_name_def)
  show ?thesis
  proof (cases "a \<noteq> [] \<and> \<not> is_sep nt (last a)")
    case True
    then have "path_join nt a name = a @ [sep nt] @ name"
      using plain_name_hd [OF assms] by (simp add: path_join_def)
    then show ?thesis
      using takeWhile_plain [OF pl, of "sep nt # rev a"] by (simp add: basename_def is_sep_sep)
  next
    case False
    then have j: "path_join nt a name = a @ name"
      using plain_name_hd [OF assms] by (auto simp add: path_join_def)
    have "takeWhile (\<lambda>c. \<not> is_sep nt c) (rev a) = []"
      using False by (intro takeWhile_rev_sep_last) auto
    then show ?thesis
      using takeWhile_plain [OF pl, of "rev a"] by (simp add: basename_def j)
  qed
qed

lemma path_join_plain_last:
  assumes "plain_name nt name"
  shows "path_join nt a name \<noteq> [] \<and> last (path_join nt a name) = last name"
  using assms plain_name_hd [OF assms] by (auto simp: path_join_def plain_name_def)

lemma dirname_path_join:
  assumes "plain_name nt name" "a \<noteq> []" "\<not> is_sep nt (last a)"
  shows "dirname nt (path_join nt a name) = a"
proof -
  have pl: "list_all (\<lambda>c. \<not> is_sep nt c) name"
    using assms by (simp add: plain_name_def)
  have j: "path_join nt a name = a @ [sep nt] @ name"
    using assms plain_name_hd [OF assms(1)] by (simp add: path_join_def)
  have d: "dropWhile (\<lambda>c. \<not> is_sep nt c) (rev (path_join nt a name)) = sep nt # rev a"
    using dropWhile_plain [OF pl, of "sep nt # rev a"] by (simp add: j is_sep_sep)
  have la: "last a \<in> set a" using assms(2) by simp
  have nall: "\<not> list_all (is_sep nt) a"
    using assms(3) la by (auto simp: list_all_iff)
  have dr: "dropWhile (is_sep nt) (rev a) = rev a"
    using assms(2,3) by (cases a rule: rev_cases) auto
  show ?thesis
    using nall by (simp add: dirname_def d is_sep_sep dr Let_def)
qed

subsection \<open>Platform profiles and the two early returns\<close>

lemma win_not_linux: "is_win h \<Longrightarrow> \<not> is_linux h"
  by (cases "sys_platform h") (auto simp: is_win_def is_linux_def)

lemma win_not_mac: "is_win h \<Longrightarrow> \<not> is_mac h"
  by (auto simp: is_win_def is_mac_def)

lemma java_profile_plain:
  "java_profile h b = Inr (Some (folder, name, fid, sz)) \<Longrightarrow> plain_name nt folder \<and> plain_name nt name"
  by (auto simp: java_profile_def plain_name_def is_sep_def split: if_splits)

lemma runtime_dir_parts:
  assumes "plain_name (is_win h) folder" "plain_name (is_win h) name"
  shows "basename (is_win h) (joinp h (joinp h x folder) name) = name"
    and "basename (is_win h) (dirname (is_win h) (joinp h (joinp h x folder) name)) = folder"
proof -
  show "basename (is_win h) (joinp h (joinp h x folder) name) = name"
    using assms(2) by (simp add: joinp_def basename_path_join)
  have "path_join (is_win h) x folder \<noteq> []" "\<not> is_sep (is_win h) (last (path_join (is_win h) x folder))"
    using path_join_plain_last [OF assms(1), of x] plain_name_last [OF assms(1)] by simp_all
  then have "dirname (is_win h) (joinp h (joinp h x folder) name) = joinp h x folder"
    using assms(2) by (simp add: joinp_def dirname_path_join)
  then show "basename (is_win h) (dirname (is_win h) (joinp h (joinp h x folder) name)) = folder"
    using assms(1) by (simp add: joinp_def basename_path_join)
qed

lemma get_java_info_supported:
  assumes "is_win64 h = Inr b" "java_profile h b = Inr (Some (folder, name, fid, sz))"
  shows "get_java_info h =
           Inr (Some (joinp h (joinp h (home h) ''acdc-java'') folder,
                      primary_runtime_dir h folder name, fid, sz))"
  using assms by (simp add: get_java_info_def get_acdc_java_path_def primary_runtime_dir_def Let_def)

lemma download_java_primary:
  assumes "get_java_info h = Inr (Some (java_path, jre_path, fid, sz))" "os_path_exists w jre_path"
  shows "download_java h w = (Inr jre_path, w)"
  using assms by (simp add: download_java_def)

lemma download_java_legacy:
  assumes "is_win64 h = Inr b" "java_profile h b = Inr (Some (folder, name, fid, sz))"
    and "\<not> os_path_exists w (primary_runtime_dir h folder name)"
    and "os_path_exists w (legacy_runtime_dir h folder name)"
  shows "download_java h w = (Inr (legacy_runtime_dir h folder name), w)"
proof -
  have pl: "plain_name (is_win h) folder" "plain_name (is_win h) name"
    using java_profile_plain [OF assms(2)] by simp_all
  show ?thesis
    using assms(3,4) runtime_dir_parts [OF pl]
    by (simp add: download_java_def get_java_info_supported [OF assms(1,2)]
        get_acdc_java_path_def primary_runtime_dir_def legacy_runtime_dir_def Let_def)
qed

lemma get_jdk_info_paths:
  "get_jdk_info h =
     (joinp h (joinp h (home h) ''acdc-java'') ''win64'',
      primary_runtime_dir h ''win64'' ''jdk1.8.0_321'',
      ''1G6SNk5vESqgdxob5UQv87PgVpIJa_dTe'', 135524352)"
  by (simp add: get_jdk_info_def get_acdc_java_path_def primary_runtime_dir_def Let_def)

lemma jdk_names_plain: "plain_name nt ''win64''" "plain_name nt ''jdk1.8.0_321''"
  by (simp_all add: plain_name_def is_sep_def)

lemma download_jdk_primary:
  assumes "os_path_exists w (primary_runtime_dir h ''win64'' ''jdk1.8.0_321'')"
  shows "download_jdk h w = (Inr (primary_runtime_dir h ''win64'' ''jdk1.8.0_321''), w)"
  using assms by (simp add: download_jdk_def get_jdk_info_paths)

lemma download_jdk_legacy:
  assumes "\<not> os_path_exists w (primary_runtime_dir h ''win64'' ''jdk1.8.0_321'')"
    and "os_path_exists w (legacy_runtime_dir h ''win64'' ''jdk1.8.0_321'')"
  shows "download_jdk h w = (Inr (legacy_runtime_dir h ''win64'' ''jdk1.8.0_321''), w)"
  using assms runtime_dir_parts [OF jdk_names_plain, of h]
  by (simp add: download_jdk_def get_jdk_info_paths
      get_acdc_java_path_def primary_runtime_dir_def legacy_runtime_dir_def Let_def)

subsection \<open>C1: 32-bit Windows\<close>

text \<open>
  C1, as stated, fails: on a 32-bit Windows host \<^verbatim>\<open>get_java_info\<close> does not fail at
  all. It returns, and what it returns is Python's \<^verbatim>\<open>None\<close>.
\<close>

theorem get_java_info_win32_counterexample:
  "is_win win32_host \<and> environ win32_host ''PROCESSOR_ARCHITECTURE'' = Some ''x86''
   \<and> get_java_info win32_host = Inr None"
  by code_simp

text \<open>
  C1 (amended): on a Windows host whose \<^verbatim>\<open>PROCESSOR_ARCHITECTURE\<close> is set and is not
  \<^verbatim>\<open>AMD64\<close>, \<^verbatim>\<open>get_java_info\<close> returns \<^verbatim>\<open>None\<close> without raising, and
  \<^verbatim>\<open>download_java\<close> fails with the \<^verbatim>\<open>TypeError\<close> of unpacking that value, before
  it has touched the file system or the network. No error names the platform.
\<close>

theorem get_java_info_win32_returns_nothing:
  assumes "is_win h" and "environ h ''PROCESSOR_ARCHITECTURE'' = Some arch" and "arch \<noteq> ''AMD64''"
  shows "get_java_info h = Inr None \<and> download_java h w = (Inl TypeError, w)"
proof -
  have "is_win64 h = Inr False"
    using assms by (simp add: is_win64_def)
  moreover have "java_profile h False = Inr None"
    using assms(1) win_not_linux win_not_mac by (simp add: java_profile_def)
  ultimately have "get_java_info h = Inr None"
    by (simp add: get_java_info_def)
  then show ?thesis
    by (simp add: download_java_def)
qed

theorem get_java_info_win32_returns_nothing_witness:
  "is_win win32_host \<and> environ win32_host ''PROCESSOR_ARCHITECTURE'' = Some ''x86''
   \<and> ''x86'' \<noteq> ''AMD64''
   \<and> get_java_info win32_host = Inr None
   \<and> download_java win32_host empty_world = (Inl TypeError, empty_world)"
proof -
  have a: "is_win win32_host" by code_simp
  have b: "environ win32_host ''PROCESSOR_ARCHITECTURE'' = Some ''x86''" by code_simp
  have c: "''x86'' \<noteq> ''AMD64''" by simp
  show ?thesis
    using get_java_info_win32_returns_nothing [OF a b c, of empty_world] a b by simp
qed

subsection \<open>C4, C5, C10: a runtime that is already there\<close>

text \<open>
  C4: when the primary runtime directory exists, \<^verbatim>\<open>download_java\<close> and
  \<^verbatim>\<open>download_jdk\<close> return its path and issue no GET request, and calling them
  again, in the world the first call left, gives the same answer and the same world.
\<close>

theorem download_present_idempotent:
  "(get_java_info h = Inr (Some (java_path, jre_path, fid, sz)) \<and> os_path_exists w jre_path \<longrightarrow>
      fst (download_java h w) = Inr jre_path
      \<and> http_requests (log (snd (download_java h w))) = http_requests (log w)
      \<and> download_java h (snd (download_java h w)) = download_java h w)
   \<and> (get_jdk_info h = (jdk_java_path, jdk_path, jdk_fid, jdk_sz) \<and> os_path_exists w jdk_path \<longrightarrow>
      fst (download_jdk h w) = Inr jdk_path
      \<and> http_requests (log (snd (download_jdk h w))) = http_requests (log w)
      \<and> download_jdk h (snd (download_jdk h w)) = download_jdk h w)"
proof (intro conjI impI)
  assume a: "get_java_info h = Inr (Some (java_path, jre_path, fid, sz)) \<and> os_path_exists w jre_path"
  then have r: "download_java h w = (Inr jre_path, w)"
    by (simp add: download_java_primary)
  show "fst (download_java h w) = Inr jre_path"
    and "http_requests (log (snd (download_java h w))) = http_requests (log w)"
    and "download_java h (snd (download_java h w)) = download_java h w"
    by (simp_all add: r)
next
  assume a: "get_jdk_info h = (jdk_java_path, jdk_path, jdk_fid, jdk_sz) \<and> os_path_exists w jdk_path"
  then have "jdk_path = primary_runtime_dir h ''win64'' ''jdk1.8.0_321''"
    by (simp add: get_jdk_info_paths)
  with a have r: "download_jdk h w = (Inr jdk_path, w)"
    by (simp add: download_jdk_primary)
  show "fst (download_jdk h w) = Inr jdk_path"
    and "http_requests (log (snd (download_jdk h w))) = http_requests (log w)"
    and "download_jdk h (snd (download_jdk h w)) = download_jdk h w"
    by (simp_all add: r)
qed

theorem download_present_idempotent_witness:
  "get_java_info linux_host =
     Inr (Some (''/home/u/acdc-java/linux'', ''/home/u/acdc-java/linux/jre1.8.0_301'',
                ''1Fz8krhOS8JsX-GhkRDeMiEnAIWqZmCfP'', 92145253))
   \<and> os_path_exists installed_world ''/home/u/acdc-java/linux/jre1.8.0_301''
   \<and> fst (download_java linux_host installed_world) = Inr ''/home/u/acdc-java/linux/jre1.8.0_301''
   \<and> http_requests (log (snd (download_java linux_host installed_world))) = []
   \<and> download_java linux_host (snd (download_java linux_host installed_world))
       = download_java linux_host installed_world
   \<and> get_jdk_info linux_host =
       (''/home/u/acdc-java/win64'', ''/home/u/acdc-java/win64/jdk1.8.0_321'',
        ''1G6SNk5vESqgdxob5UQv87PgVpIJa_dTe'', 135524352)
   \<and> os_path_exists installed_world ''/home/u/acdc-java/win64/jdk1.8.0_321''
   \<and> fst (download_jdk linux_host installed_world) = Inr ''/home/u/acdc-java/win64/jdk1.8.0_321''
   \<and> http_requests (log (snd (download_jdk linux_host installed_world))) = []
   \<and> download_jdk linux_host (snd (download_jdk linux_host installed_world))
       = download_jdk linux_host installed_world"
proof -
  have a: "get_java_info linux_host =
     Inr (Some (''/home/u/acdc-java/linux'', ''/home/u/acdc-java/linux/jre1.8.0_301'',
                ''1Fz8krhOS8JsX-GhkRDeMiEnAIWqZmCfP'', 92145253))"
    by code_simp
  have b: "os_path_exists installed_world ''/home/u/acdc-java/linux/jre1.8.0_301''"
    by code_simp
  have c: "get_jdk_info linux_host =
       (''/home/u/acdc-java/win64'', ''/home/u/acdc-java/win64/jdk1.8.0_321'',
        ''1G6SNk5vESqgdxob5UQv87PgVpIJa_dTe'', 135524352)"
    by code_simp
  have d: "os_path_exists installed_world ''/home/u/acdc-java/win64/jdk1.8.0_321''"
    by code_simp
  have e: "http_requests (log installed_world) = []"
    by code_simp
  show ?thesis
    using download_present_idempotent [of linux_host "''/home/u/acdc-java/linux''"
        "''/home/u/acdc-java/linux/jre1.8.0_301''" "''1Fz8krhOS8JsX-GhkRDeMiEnAIWqZmCfP''" 92145253
        installed_world "''/home/u/acdc-java/win64''" "''/home/u/acdc-java/win64/jdk1.8.0_321''"
        "''1G6SNk5vESqgdxob5UQv87PgVpIJa_dTe''" 135524352]
      a b c d e
    by simp
qed

text \<open>
  C5: when the primary runtime directory is absent and the equivalent directory under
  the legacy base directory exists, \<^verbatim>\<open>download_java\<close> and \<^verbatim>\<open>download_jdk\<close>
  return the legacy path, and the log of effects is as it was: no request, no
  download, no extraction.
\<close>

theorem download_returns_legacy:
  "(is_win64 h = Inr b \<and> java_profile h b = Inr (Some (folder, name, fid, sz))
      \<and> \<not> os_path_exists w (primary_runtime_dir h folder name)
      \<and> os_path_exists w (legacy_runtime_dir h folder name) \<longrightarrow>
      fst (download_java h w) = Inr (legacy_runtime_dir h folder name)
      \<and> log (snd (download_java h w)) = log w)
   \<and> (\<not> os_path_exists w (primary_runtime_dir h ''win64'' ''jdk1.8.0_321'')
      \<and> os_path_exists w (legacy_runtime_dir h ''win64'' ''jdk1.8.0_321'') \<longrightarrow>
      fst (download_jdk h w) = Inr (legacy_runtime_dir h ''win64'' ''jdk1.8.0_321'')
      \<and> log (snd (download_jdk h w)) = log w)"
  by (simp add: download_java_legacy download_jdk_legacy)

theorem download_returns_legacy_witness:
  "is_win64 linux_host = Inr False
   \<and> java_profile linux_host False =
       Inr (Some (''linux'', ''jre1.8.0_301'', ''1Fz8krhOS8JsX-GhkRDeMiEnAIWqZmCfP'', 92145253))
   \<and> \<not> os_path_exists legacy_world (primary_runtime_dir linux_host ''linux'' ''jre1.8.0_301'')
   \<and> os_path_exists legacy_world (legacy_runtime_dir linux_host ''linux'' ''jre1.8.0_301'')
   \<and> legacy_runtime_dir linux_host ''linux'' ''jre1.8.0_301'' = ''/home/u/.acdc-java/linux/jre1.8.0_301''
   \<and> fst (download_java linux_host legacy_world) = Inr ''/home/u/.acdc-java/linux/jre1.8.0_301''
   \<and> log (snd (download_java linux_host legacy_world)) = []
   \<and> \<not> os_path_exists legacy_world (primary_runtime_dir linux_host ''win64'' ''jdk1.8.0_321'')
   \<and> os_path_exists legacy_world (legacy_runtime_dir linux_host ''win64'' ''jdk1.8.0_321'')
   \<and> legacy_runtime_dir linux_host ''win64'' ''jdk1.8.0_321'' = ''/home/u/.acdc-java/win64/jdk1.8.0_321''
   \<and> fst (download_jdk linux_host legacy_world) = Inr ''/home/u/.acdc-java/win64/jdk1.8.0_321''
   \<and> log (snd (download_jdk linux_host legacy_world)) = []"
proof -
  have a: "is_win64 linux_host = Inr False" by code_simp
  have b: "java_profile linux_host False =
       Inr (Some (''linux'', ''jre1.8.0_301'', ''1Fz8krhOS8JsX-GhkRDeMiEnAIWqZmCfP'', 92145253))"
    by code_simp
  have c: "\<not> os_path_exists legacy_world (primary_runtime_dir linux_host ''linux'' ''jre1.8.0_301'')"
    by code_simp
  have d: "os_path_exists legacy_world (legacy_runtime_dir linux_host ''linux'' ''jre1.8.0_301'')"
    by code_simp
  have e: "legacy_runtime_dir linux_host ''linux'' ''jre1.8.0_301'' = ''/home/u/.acdc-java/linux/jre1.8.0_301''"
    by code_simp
  have f: "\<not> os_path_exists legacy_world (primary_runtime_dir linux_host ''win64'' ''jdk1.8.0_321'')"
    by code_simp
  have g: "os_path_exists legacy_world (legacy_runtime_dir linux_host ''win64'' ''jdk1.8.0_321'')"
    by code_simp
  have i: "legacy_runtime_dir linux_host ''win64'' ''jdk1.8.0_321'' = ''/home/u/.acdc-java/win64/jdk1.8.0_321''"
    by code_simp
  have j: "log legacy_world = []" by code_simp
  show ?thesis
    using download_returns_legacy [of linux_host False "''linux''" "''jre1.8.0_301''"
        "''1Fz8krhOS8JsX-GhkRDeMiEnAIWqZmCfP''" 92145253 legacy_world]
      a b c d e f g i j
    by simp
qed

text \<open>
  C10: when the primary runtime directory exists, or else the legacy one,
  \<^verbatim>\<open>download_java\<close> and \<^verbatim>\<open>download_jdk\<close> leave the world exactly as it was:
  the same file system at every path and not one effect more in the log.
\<close>

theorem download_existing_is_pure_read:
  "(is_win64 h = Inr b \<and> java_profile h b = Inr (Some (folder, name, fid, sz))
      \<and> (os_path_exists w (primary_runtime_dir h folder name)
          \<or> os_path_exists w (legacy_runtime_dir h folder name)) \<longrightarrow>
      snd (download_java h w) = w)
   \<and> (os_path_exists w (primary_runtime_dir h ''win64'' ''jdk1.8.0_321'')
        \<or> os_path_exists w (legacy_runtime_dir h ''win64'' ''jdk1.8.0_321'') \<longrightarrow>
      snd (download_jdk h w) = w)"
proof (intro conjI impI)
  assume a: "is_win64 h = Inr b \<and> java_profile h b = Inr (Some (folder, name, fid, sz))
      \<and> (os_path_exists w (primary_runtime_dir h folder name)
          \<or> os_path_exists w (legacy_runtime_dir h folder name))"
  show "snd (download_java h w) = w"
  proof (cases "os_path_exists w (primary_runtime_dir h folder name)")
    case True
    then show ?thesis
      using a download_java_primary [OF get_java_info_supported, of h b folder name fid sz w] by simp
  next
    case False
    then show ?thesis
      using a download_java_legacy [of h b folder name fid sz w] by simp
  qed
next
  assume a: "os_path_exists w (primary_runtime_dir h ''win64'' ''jdk1.8.0_321'')
        \<or> os_path_exists w (legacy_runtime_dir h ''win64'' ''jdk1.8.0_321'')"
  show "snd (download_jdk h w) = w"
  proof (cases "os_path_exists w (primary_runtime_dir h ''win64'' ''jdk1.8.0_321'')")
    case True
    then show ?thesis by (simp add: download_jdk_primary)
  next
    case False
    then show ?thesis using a by (simp add: download_jdk_legacy)
  qed
qed

theorem download_existing_is_pure_read_witness:
  "is_win64 linux_host = Inr False
   \<and> java_profile linux_host False =
       Inr (Some (''linux'', ''jre1.8.0_301'', ''1Fz8krhOS8JsX-GhkRDeMiEnAIWqZmCfP'', 92145253))
   \<and> os_path_exists installed_world (primary_runtime_dir linux_host ''linux'' ''jre1.8.0_301'')
   \<and> snd (download_java linux_host installed_world) = installed_world
   \<and> os_path_exists legacy_world (legacy_runtime_dir linux_host ''win64'' ''jdk1.8.0_321'')
   \<and> snd (download_jdk linux_host legacy_world) = legacy_world"
proof -
  have a: "is_win64 linux_host = Inr False" by code_simp
  have b: "java_profile linux_host False =
       Inr (Some (''linux'', ''jre1.8.0_301'', ''1Fz8krhOS8JsX-GhkRDeMiEnAIWqZmCfP'', 92145253))"
    by code_simp
  have c: "os_path_exists installed_world (primary_runtime_dir linux_host ''linux'' ''jre1.8.0_301'')"
    by code_simp
  have d: "os_path_exists legacy_world (legacy_runtime_dir linux_host ''win64'' ''jdk1.8.0_321'')"
    by code_simp
  show ?thesis
    using download_existing_is_pure_read [of linux_host False "''linux''" "''jre1.8.0_301''"
        "''1Fz8krhOS8JsX-GhkRDeMiEnAIWqZmCfP''" 92145253 installed_world]
      download_existing_is_pure_read [of linux_host False "''linux''" "''jre1.8.0_301''"
        "''1Fz8krhOS8JsX-GhkRDeMiEnAIWqZmCfP''" 92145253 legacy_world]
      a b c d
    by simp
qed

subsection \<open>C2: the JDK path on Linux and macOS\<close>

lemma startswith_iff_append: "startswith s x \<longleftrightarrow> (\<exists>r. s = x @ r)"
  by (induction s x rule: startswith.induct) auto

lemma endswith_iff_append: "endswith p x \<longleftrightarrow> (\<exists>q. p = q @ x)"
proof
  assume "endswith p x"
  then obtain r where "rev p = rev x @ r"
    by (auto simp: endswith_def startswith_iff_append)
  then have "p = rev r @ x"
    by (metis rev_append rev_rev_ident)
  then show "\<exists>q. p = q @ x" ..
next
  assume "\<exists>q. p = q @ x"
  then show "endswith p x"
    by (auto simp: endswith_def startswith_iff_append)
qed

lemma rfind_jre_suffix: "rfind (q @ ''jre'') ''jre'' = int (length q)"
proof -
  have r: "rev [0 ..< Suc (length (q @ ''jre''))] =
             [length q + 3, length q + 2, length q + 1, length q] @ rev [0 ..< length q]"
    by (simp add: numeral_3_eq_3)
  show ?thesis
    unfolding rfind_def r by simp
qed

lemma rfind_jre_slash_suffix: "rfind (q @ ''jre/'') ''jre'' = int (length q)"
proof -
  have r: "rev [0 ..< Suc (length (q @ ''jre/''))] =
             [length q + 4, length q + 3, length q + 2, length q + 1, length q] @ rev [0 ..< length q]"
    by (simp add: numeral_eq_Suc)
  show ?thesis
    unfolding rfind_def r by simp
qed

lemma strip_code_suffix:
  "slice_to (q @ ''jre'') (rfind (q @ ''jre'') ''jre'') = q"
  "slice_to (q @ ''jre/'') (rfind (q @ ''jre/'') ''jre'') = q"
  by (simp_all add: rfind_jre_suffix rfind_jre_slash_suffix slice_to_def)

lemma code_strip:
  assumes "p = q @ ''jre'' \<or> p = q @ ''jre/''"
  shows "(if endswith p ''jre'' \<or> endswith p ''jre/'' then slice_to p (rfind p ''jre'') else p) = q"
proof -
  have "endswith p ''jre'' \<or> endswith p ''jre/''"
    using assms by (auto simp: endswith_iff_append)
  moreover have "slice_to p (rfind p ''jre'') = q"
    using assms by (auto simp: strip_code_suffix)
  ultimately show ?thesis by simp
qed

lemma strip_trailing_jre_cases:
  "strip_trailing_jre ''jre'' = []"
  "strip_trailing_jre (q @ ''/jre'') = q @ ''/''"
  "strip_trailing_jre ''jre/'' = []"
  "strip_trailing_jre (q @ ''/jre/'') = q @ ''/''"
  by (simp_all add: strip_trailing_jre_def endswith_def)

lemma code_strip_segment:
  assumes "has_trailing_jre_segment p"
  shows "(if endswith p ''jre'' \<or> endswith p ''jre/'' then slice_to p (rfind p ''jre'') else p)
           = strip_trailing_jre p"
proof -
  consider "p = ''jre''" | q where "p = q @ ''/jre''" | "p = ''jre/''" | q where "p = q @ ''/jre/''"
    using assms by (auto simp: has_trailing_jre_segment_def endswith_iff_append)
  then show ?thesis
  proof cases
    case 1
    then show ?thesis
      using code_strip [of p "[]"] by (simp add: strip_trailing_jre_cases)
  next
    case 2
    then show ?thesis
      using code_strip [of p "q @ ''/''"] by (simp add: strip_trailing_jre_cases)
  next
    case 3
    then show ?thesis
      using code_strip [of p "[]"] by (simp add: strip_trailing_jre_cases)
  next
    case 4
    then show ?thesis
      using code_strip [of p "q @ ''/''"] by (simp add: strip_trailing_jre_cases)
  qed
qed

lemma mac_not_linux: "is_mac h \<Longrightarrow> \<not> is_linux h"
  by (simp add: is_mac_def is_linux_def)

lemma find_jdk_linux:
  assumes "environ h ''JDK_HOME'' = None" "is_linux h" "find_javahome h w = (Inr p, w')"
  shows "find_jdk h w =
           (Inr (Some (if endswith p ''jre'' \<or> endswith p ''jre/''
                       then slice_to p (rfind p ''jre'') else p)), w')"
  using assms by (simp add: find_jdk_def and_then_def return_value_def)

lemma find_jdk_mac:
  assumes "environ h ''JDK_HOME'' = None" "is_mac h" "find_javahome h w = (Inr p, w')"
  shows "find_jdk h w = (Inr (Some p), w')"
  using assms mac_not_linux by (simp add: find_jdk_def and_then_def return_value_def)

text \<open>
  C2, as stated, fails on macOS: with \<^verbatim>\<open>JAVA_HOME=/opt/java/jre\<close> and no
  \<^verbatim>\<open>JDK_HOME\<close>, \<^verbatim>\<open>find_jdk\<close> returns the JRE path with its \<^verbatim>\<open>jre\<close> segment still
  in place.
\<close>

theorem find_jdk_mac_counterexample:
  "is_mac mac_jre_host \<and> \<not> is_win mac_jre_host \<and> environ mac_jre_host ''JDK_HOME'' = None
   \<and> fst (find_javahome mac_jre_host empty_world) = Inr ''/opt/java/jre''
   \<and> strip_trailing_jre ''/opt/java/jre'' = ''/opt/java/''
   \<and> fst (find_jdk mac_jre_host empty_world) = Inr (Some ''/opt/java/jre'')
   \<and> fst (find_jdk mac_jre_host empty_world) \<noteq> Inr (Some (strip_trailing_jre ''/opt/java/jre''))"
  by code_simp

text \<open>
  C2 (amended): with \<^verbatim>\<open>JDK_HOME\<close> unset and \<^verbatim>\<open>find_javahome\<close> returning a path,
  \<^verbatim>\<open>find_jdk\<close> on Linux returns that path with a trailing \<^verbatim>\<open>jre\<close> or \<^verbatim>\<open>jre/\<close>
  segment stripped (the separator before the segment stays), and returns it unchanged
  when its text ends neither in \<^verbatim>\<open>jre\<close> nor in \<^verbatim>\<open>jre/\<close>; on macOS it returns the
  path unchanged in every case.
\<close>

theorem find_jdk_strips_on_linux_only:
  "environ h ''JDK_HOME'' = None \<and> find_javahome h w = (Inr p, w') \<longrightarrow>
     (is_linux h \<and> has_trailing_jre_segment p \<longrightarrow>
        find_jdk h w = (Inr (Some (strip_trailing_jre p)), w'))
     \<and> (is_linux h \<and> \<not> endswith p ''jre'' \<and> \<not> endswith p ''jre/'' \<longrightarrow>
        find_jdk h w = (Inr (Some p), w'))
     \<and> (is_mac h \<longrightarrow> find_jdk h w = (Inr (Some p), w'))"
proof (intro impI conjI)
  assume a: "environ h ''JDK_HOME'' = None \<and> find_javahome h w = (Inr p, w')"
  {
    assume "is_linux h \<and> has_trailing_jre_segment p"
    then show "find_jdk h w = (Inr (Some (strip_trailing_jre p)), w')"
      using a find_jdk_linux [of h w p w'] code_strip_segment [of p] by simp
  next
    assume "is_linux h \<and> \<not> endswith p ''jre'' \<and> \<not> endswith p ''jre/''"
    then show "find_jdk h w = (Inr (Some p), w')"
      using a find_jdk_linux [of h w p w'] by simp
  next
    assume "is_mac h"
    then show "find_jdk h w = (Inr (Some p), w')"
      using a find_jdk_mac [of h w p w'] by simp
  }
qed

theorem find_jdk_strips_on_linux_only_witness:
  "environ linux_jre_host ''JDK_HOME'' = None
   \<and> find_javahome linux_jre_host empty_world = (Inr ''/opt/java/jre'', empty_world)
   \<and> is_linux linux_jre_host \<and> has_trailing_jre_segment ''/opt/java/jre''
   \<and> find_jdk linux_jre_host empty_world = (Inr (Some ''/opt/java/''), empty_world)
   \<and> environ linux_jdk_host ''JDK_HOME'' = None
   \<and> find_javahome linux_jdk_host empty_world = (Inr ''/opt/java/jdk8'', empty_world)
   \<and> is_linux linux_jdk_host \<and> \<not> endswith ''/opt/java/jdk8'' ''jre''
   \<and> \<not> endswith ''/opt/java/jdk8'' ''jre/''
   \<and> find_jdk linux_jdk_host empty_world = (Inr (Some ''/opt/java/jdk8''), empty_world)
   \<and> environ mac_jre_host ''JDK_HOME'' = None
   \<and> find_javahome mac_jre_host empty_world = (Inr ''/opt/java/jre'', empty_world)
   \<and> is_mac mac_jre_host
   \<and> find_jdk mac_jre_host empty_world = (Inr (Some ''/opt/java/jre''), empty_world)"
proof -
  have a1: "environ linux_jre_host ''JDK_HOME'' = None" by code_simp
  have a2: "find_javahome linux_jre_host empty_world = (Inr ''/opt/java/jre'', empty_world)"
    by (simp add: find_javahome_def linux_jre_host_def linux_host_def)
  have a3: "is_linux linux_jre_host" by code_simp
  have a4: "has_trailing_jre_segment ''/opt/java/jre''" by code_simp
  have a5: "strip_trailing_jre ''/opt/java/jre'' = ''/opt/java/''" by code_simp
  have b1: "environ linux_jdk_host ''JDK_HOME'' = None" by code_simp
  have b2: "find_javahome linux_jdk_host empty_world = (Inr ''/opt/java/jdk8'', empty_world)"
    by (simp add: find_javahome_def linux_jdk_host_def linux_host_def)
  have b3: "is_linux linux_jdk_host" by code_simp
  have b4: "\<not> endswith ''/opt/java/jdk8'' ''jre''" by code_simp
  have b5: "\<not> endswith ''/opt/java/jdk8'' ''jre/''" by code_simp
  have c1: "environ mac_jre_host ''JDK_HOME'' = None" by code_simp
  have c2: "find_javahome mac_jre_host empty_world = (Inr ''/opt/java/jre'', empty_world)"
    by (simp add: find_javahome_def mac_jre_host_def linux_host_def)
  have c3: "is_mac mac_jre_host" by code_simp
  show ?thesis
    using find_jdk_strips_on_linux_only [of linux_jre_host empty_world "''/opt/java/jre''" empty_world]
      find_jdk_strips_on_linux_only [of linux_jdk_host empty_world "''/opt/java/jdk8''" empty_world]
      find_jdk_strips_on_linux_only [of mac_jre_host empty_world "''/opt/java/jre''" empty_world]
      a1 a2 a3 a4 a5 b1 b2 b3 b4 b5 c1 c2 c3
    by simp
qed

subsection \<open>C3: the search for the JVM library\<close>

lemma find_append_cases:
  "find P (xs @ ys) = (case find P xs of None \<Rightarrow> find P ys | Some x \<Rightarrow> Some x)"
  by (induction xs) auto

lemma look_places_find:
  "look_places h w jre_bin jre_libexec arch places =
     find (has_library w)
       (map (\<lambda>place. (jre_bin, joinp h (joinp h (joinp h jre_libexec arch) place) (jvm_library_name h)))
          places)"
  by (induction places) (simp_all add: has_library_def Let_def)

lemma look_arches_find:
  "look_arches h w jre_bin jre_libexec arches =
     find (has_library w)
       (concat (map (\<lambda>arch.
          map (\<lambda>place. (jre_bin, joinp h (joinp h (joinp h jre_libexec arch) place) (jvm_library_name h)))
            [''client'', ''server'']) arches))"
proof (induction arches)
  case Nil
  then show ?case by simp
next
  case (Cons arch rest)
  show ?case
    using Cons.IH look_places_find [of h w jre_bin jre_libexec arch "[''client'', ''server'']"]
    by (simp add: find_append_cases split: option.splits)
qed

lemma look_arches_home:
  "look_arches h w (joinp h jre_home ''bin'') (joinp h jre_home (if is_win h then ''bin'' else ''lib''))
     (if is_linux h then [''amd64'', ''i386'', []] else [[]])
   = find (has_library w) (home_candidates h jre_home)"
  unfolding look_arches_find home_candidates_def ..

lemma look_homes_find:
  "look_homes h w jre_bin homes =
     (case find (has_library w) (concat (map (home_candidates h) homes)) of
        Some (b, so) \<Rightarrow> Inr (b, Some so)
      | None \<Rightarrow>
          (case (if homes = [] then jre_bin else Some (joinp h (last homes) ''bin'')) of
             None \<Rightarrow> Inl (UnboundLocalError ''jre_bin'')
           | Some b \<Rightarrow> Inr (b, None)))"
proof (induction homes arbitrary: jre_bin)
  case Nil
  then show ?case by simp
next
  case (Cons jre_home rest)
  show ?case
  proof (cases "find (has_library w) (home_candidates h jre_home)")
    case None
    then show ?thesis
      using Cons.IH [of "Some (joinp h jre_home ''bin'')"] look_arches_home [of h w jre_home]
      by (simp add: find_append_cases Let_def split: option.splits)
  next
    case (Some hit)
    then show ?thesis
      using look_arches_home [of h w jre_home]
      by (cases hit) (simp add: find_append_cases Let_def)
  qed
qed

lemma find_jre_bin_jdk_so_find:
  assumes "find_javahome h w = (Inr java_home, w')"
  shows "find_jre_bin_jdk_so h w =
           ((case find (has_library w') (jvm_candidates h java_home) of
               Some (b, so) \<Rightarrow> Inr (b, Some so)
             | None \<Rightarrow> Inr (joinp h (joinp h java_home ''default-runtime'') ''bin'', None)), w')"
  using assms
  by (simp add: find_jre_bin_jdk_so_def and_then_def look_homes_find jvm_candidates_def
      split: option.splits)

lemma find_None_list_all: "find P xs = None \<longleftrightarrow> list_all (\<lambda>x. \<not> P x) xs"
  by (induction xs) auto

text \<open>
  C3: once \<^verbatim>\<open>find_javahome\<close> has resolved the JRE home, \<^verbatim>\<open>find_jre_bin_jdk_so\<close>
  does not raise. When no candidate location holds the library file it returns a
  \<^verbatim>\<open>bin\<close> directory (that of the last root tried, \<^verbatim>\<open>default-runtime\<close>) paired with
  \<^verbatim>\<open>None\<close>; when some candidate does, it returns the first one in the search order,
  with the \<^verbatim>\<open>bin\<close> directory of its root.
\<close>

theorem find_jre_bin_jdk_so_first_match_or_absent:
  "find_javahome h w = (Inr java_home, w') \<longrightarrow>
     (list_all (\<lambda>c. \<not> has_library w' c) (jvm_candidates h java_home) \<longrightarrow>
        find_jre_bin_jdk_so h w =
          (Inr (joinp h (joinp h java_home ''default-runtime'') ''bin'', None), w'))
     \<and> (find (has_library w') (jvm_candidates h java_home) = Some (b, so) \<longrightarrow>
        find_jre_bin_jdk_so h w = (Inr (b, Some so), w'))"
  by (auto simp: find_jre_bin_jdk_so_find find_None_list_all [symmetric])

theorem find_jre_bin_jdk_so_first_match_or_absent_witness:
  "find_javahome linux_java_home_host bare_jre_world = (Inr ''/opt/java'', bare_jre_world)
   \<and> os_path_isdir bare_jre_world ''/opt/java''
   \<and> list_all (\<lambda>c. \<not> has_library bare_jre_world c) (jvm_candidates linux_java_home_host ''/opt/java'')
   \<and> find_jre_bin_jdk_so linux_java_home_host bare_jre_world =
       (Inr (''/opt/java/default-runtime/bin'', None), bare_jre_world)
   \<and> find_javahome linux_java_home_host jvm_world = (Inr ''/opt/java'', jvm_world)
   \<and> find (has_library jvm_world) (jvm_candidates linux_java_home_host ''/opt/java'')
       = Some (''/opt/java/jre/bin'', ''/opt/java/jre/lib/amd64/server/libjvm.so'')
   \<and> find_jre_bin_jdk_so linux_java_home_host jvm_world =
       (Inr (''/opt/java/jre/bin'', Some ''/opt/java/jre/lib/amd64/server/libjvm.so''), jvm_world)"
proof -
  have a: "find_javahome linux_java_home_host bare_jre_world = (Inr ''/opt/java'', bare_jre_world)"
    by (simp add: find_javahome_def linux_java_home_host_def linux_host_def)
  have b: "list_all (\<lambda>c. \<not> has_library bare_jre_world c) (jvm_candidates linux_java_home_host ''/opt/java'')"
    by code_simp
  have c: "find_javahome linux_java_home_host jvm_world = (Inr ''/opt/java'', jvm_world)"
    by (simp add: find_javahome_def linux_java_home_host_def linux_host_def)
  have d: "find (has_library jvm_world) (jvm_candidates linux_java_home_host ''/opt/java'')
       = Some (''/opt/java/jre/bin'', ''/opt/java/jre/lib/amd64/server/libjvm.so'')"
    by code_simp
  have e: "joinp linux_java_home_host (joinp linux_java_home_host ''/opt/java'' ''default-runtime'') ''bin''
       = ''/opt/java/default-runtime/bin''"
    by code_simp
  have f: "os_path_isdir bare_jre_world ''/opt/java''" by code_simp
  show ?thesis
    using find_jre_bin_jdk_so_first_match_or_absent [of linux_java_home_host bare_jre_world
        "''/opt/java''" bare_jre_world "''/opt/java/jre/bin''" "''/opt/java/jre/lib/amd64/server/libjvm.so''"]
      find_jre_bin_jdk_so_first_match_or_absent [of linux_java_home_host jvm_world
        "''/opt/java''" jvm_world "''/opt/java/jre/bin''" "''/opt/java/jre/lib/amd64/server/libjvm.so''"]
      a b c d e f
    by simp
qed

subsection \<open>The log of a download\<close>

lemma emit_event_simps: "log (emit_event e w) = log w @ [e]" "fs (emit_event e w) = fs w"
  by (simp_all add: emit_event_def)

lemma sink_and_writes_append: "sink_and_writes (xs @ ys) = sink_and_writes xs @ sink_and_writes ys"
  by (induction xs rule: sink_and_writes.induct) simp_all

lemma written_chunks_append: "written_chunks (xs @ ys) = written_chunks xs @ written_chunks ys"
  by (induction xs rule: written_chunks.induct) simp_all

lemma http_requests_append: "http_requests (xs @ ys) = http_requests xs @ http_requests ys"
  by (induction xs rule: http_requests.induct) simp_all

lemmas log_simps = emit_event_simps sink_and_writes_append written_chunks_append http_requests_append

lemma write_chunks_sink:
  "sink_and_writes (log (write_chunks progress f cs w)) =
     sink_and_writes (log w)
     @ concat (map (\<lambda>c. WriteChunk f c # (if progress then [Emit (- 1) (int (length c))] else []))
                 (filter (\<lambda>c. c \<noteq> []) cs))"
  by (induction cs arbitrary: w) (simp_all add: log_simps file_write_def Let_def)

lemma write_chunks_written:
  "written_chunks (log (write_chunks progress f cs w)) =
     written_chunks (log w) @ filter (\<lambda>c. c \<noteq> []) cs"
  by (induction cs arbitrary: w) (simp_all add: log_simps file_write_def Let_def)

lemma write_chunks_requests:
  "http_requests (log (write_chunks progress f cs w)) = http_requests (log w)"
  by (induction cs arbitrary: w) (simp_all add: log_simps file_write_def Let_def)

lemma save_response_content_stages:
  "save_response_content h r destination file_size progress w =
     (if temp_opens h destination w
      then (let w5 = write_chunks progress (temp_dst_of h destination) (iter_content r)
                       (after_open h destination file_size progress w)
            in if stream_fails r then (Inl ConnectionError, w5) else finish_save h destination w5)
      else (Inl (if temp_dst_of h destination = [] then FileNotFoundError (temp_dst_of h destination)
                 else IsADirectoryError (temp_dst_of h destination)),
            before_open h file_size progress w))"
proof -
  let ?tmp = "mkdtemp_name h"
  let ?w1 = "emit_event (Mkdtemp ?tmp) (w\<lparr>fs := (fs w)(?tmp \<mapsto> Dir)\<rparr>)"
  let ?w3 = "(case file_size of
                Some n \<Rightarrow> if progress then emit_event (Emit n (- 1)) ?w1 else ?w1
              | None \<Rightarrow> ?w1)"
  have w3: "?w3 = before_open h file_size progress w"
    by (simp add: before_open_def start_emission_def emit_event_def split: option.splits)
  have dead: "(if \<not> os_path_exists ?w1 ?tmp then os_mkdir ?tmp ?w1 else ?w1) = ?w1"
    by (simp add: os_path_exists_def emit_event_def)
  have "save_response_content h r destination file_size progress w =
      and_then (open_wb (is_win h) (temp_dst_of h destination))
        (\<lambda>_ w4. let w5 = write_chunks progress (temp_dst_of h destination) (iter_content r) w4
                in if stream_fails r then (Inl ConnectionError, w5) else finish_save h destination w5)
        ?w3"
    by (simp only: save_response_content_def tempfile_mkdtemp_def Let_def prod.case dead
        finish_save_def temp_dst_of_def)
  then have unfold: "save_response_content h r destination file_size progress w =
      and_then (open_wb (is_win h) (temp_dst_of h destination))
        (\<lambda>_ w4. let w5 = write_chunks progress (temp_dst_of h destination) (iter_content r) w4
                in if stream_fails r then (Inl ConnectionError, w5) else finish_save h destination w5)
        (before_open h file_size progress w)"
    by (simp only: w3)
  show ?thesis
  proof (cases "temp_opens h destination w")
    case True
    then have "open_wb (is_win h) (temp_dst_of h destination) (before_open h file_size progress w)
        = (Inr (), after_open h destination file_size progress w)"
      by (simp add: open_wb_def temp_opens_def before_open_def after_open_def os_path_isdir_def
          emit_event_def)
    then show ?thesis
      using True by (simp add: unfold and_then_def)
  next
    case False
    then have "open_wb (is_win h) (temp_dst_of h destination) (before_open h file_size progress w)
        = (Inl (if temp_dst_of h destination = [] then FileNotFoundError (temp_dst_of h destination)
                 else IsADirectoryError (temp_dst_of h destination)),
           before_open h file_size progress w)"
      by (auto simp add: open_wb_def temp_opens_def before_open_def os_path_isdir_def)
    then show ?thesis
      using False by (simp add: unfold and_then_def)
  qed
qed

text \<open>What follows the transfer (directory, move, clean-up) adds nothing to the three projections.\<close>

lemma finish_save_silent:
  "sink_and_writes (log (snd (finish_save h destination w5))) = sink_and_writes (log w5)"
  "written_chunks (log (snd (finish_save h destination w5))) = written_chunks (log w5)"
  "http_requests (log (snd (finish_save h destination w5))) = http_requests (log w5)"
  by (simp_all add: finish_save_def and_then_def os_makedirs_def return_value_def shutil_move_def
      shutil_rmtree_def log_simps Let_def split: prod.splits sum.splits)

lemma start_emission_projections:
  "sink_and_writes (start_emission file_size progress) = start_emission file_size progress"
  "written_chunks (start_emission file_size progress) = []"
  "http_requests (start_emission file_size progress) = []"
  by (simp_all add: start_emission_def split: option.splits)

lemma save_projections:
  "sink_and_writes (log (snd (save_response_content h r destination file_size progress w))) =
     sink_and_writes (log w) @ start_emission file_size progress
     @ (if temp_opens h destination w
        then concat (map (\<lambda>c. WriteChunk (temp_dst_of h destination) c
                               # (if progress then [Emit (- 1) (int (length c))] else []))
                      (filter (\<lambda>c. c \<noteq> []) (iter_content r)))
        else [])"
  "written_chunks (log (snd (save_response_content h r destination file_size progress w))) =
     written_chunks (log w)
     @ (if temp_opens h destination w then filter (\<lambda>c. c \<noteq> []) (iter_content r) else [])"
  "http_requests (log (snd (save_response_content h r destination file_size progress w))) =
     http_requests (log w)"
  by (simp_all add: save_response_content_stages Let_def finish_save_silent
      write_chunks_sink write_chunks_written write_chunks_requests
      after_open_def before_open_def log_simps start_emission_projections)

subsection \<open>C7: the confirmation token\<close>

lemma get_confirm_token_items_find:
  "get_confirm_token_items cs =
     map_option snd (find (\<lambda>c. startswith (fst c) ''download_warning'') cs)"
  by (induction cs rule: get_confirm_token_items.induct) simp_all

lemma get_confirm_token_cookie: "get_confirm_token r = map_option snd (warning_cookie r)"
  by (simp add: get_confirm_token_def warning_cookie_def get_confirm_token_items_find)

lemma download_from_gdrive_session:
  "download_from_gdrive h ident destination file_size progress w =
     save_response_content h (saved_response h ident) destination file_size progress
       (w\<lparr>log := log w @ map HttpGet (session_requests h ident)\<rparr>)"
  by (cases "warning_cookie (remote h [[(''id'', ident)]])")
     (simp_all add: download_from_gdrive_def Let_def get_confirm_token_cookie reissued_def
       session_requests_def saved_response_def emit_event_def)

lemma requests_during_grow:
  "http_requests (log w') = http_requests (log w) @ rs \<Longrightarrow> requests_during w w' = rs"
  by (simp add: requests_during_def)

lemma download_from_gdrive_requests:
  "requests_during w (snd (download_from_gdrive h ident destination file_size progress w))
     = session_requests h ident"
proof (rule requests_during_grow)
  have "http_requests (map HttpGet rs) = rs" for rs
    by (induction rs) simp_all
  then show "http_requests (log (snd (download_from_gdrive h ident destination file_size progress w)))
      = http_requests (log w) @ session_requests h ident"
    by (simp add: download_from_gdrive_session save_projections log_simps)
qed

text \<open>
  C7, as stated, fails: a response that carries a \<^verbatim>\<open>download_warning\<close> cookie with an
  empty value is not followed by a second request, and the body of the first response
  is what gets saved.
\<close>

theorem empty_token_counterexample:
  "warning_cookie (remote empty_token_host [[(''id'', ''f1'')]])
     = Some (''download_warning_13058876669334088843'', [])
   \<and> requests_during empty_world
        (snd (download_from_gdrive empty_token_host ''f1'' ''/data/out.zip'' None False empty_world))
      = [[(''id'', ''f1'')]]
   \<and> fs (snd (download_from_gdrive empty_token_host ''f1'' ''/data/out.zip'' None False empty_world))
        ''/data/out.zip'' = Some (File [1, 2, 3])"
  by code_simp

text \<open>
  C7 (amended): \<^verbatim>\<open>download_from_gdrive\<close> first issues one GET with the remote id. If
  and only if the first cookie of the response whose key is prefixed
  \<^verbatim>\<open>download_warning\<close> has a non-empty value, it issues a second GET with the id and
  \<^verbatim>\<open>confirm\<close> set to that value, and the response that is saved is the one to the
  second request; otherwise (no such cookie, or an empty value) there is no second
  request and the first response is saved.
\<close>

theorem download_from_gdrive_confirmation:
  "requests_during w (snd (download_from_gdrive h ident destination file_size progress w))
     = (if reissued h ident
        then [[(''id'', ident)],
              [(''id'', ident),
               (''confirm'', snd (the (warning_cookie (remote h [[(''id'', ident)]]))))]]
        else [[(''id'', ident)]])
   \<and> download_from_gdrive h ident destination file_size progress w =
       save_response_content h
         (if reissued h ident
          then remote h [[(''id'', ident)],
                 [(''id'', ident),
                  (''confirm'', snd (the (warning_cookie (remote h [[(''id'', ident)]]))))]]
          else remote h [[(''id'', ident)]])
         destination file_size progress
         (w\<lparr>log := log w @ map HttpGet
            (requests_during w (snd (download_from_gdrive h ident destination file_size progress w)))\<rparr>)
   \<and> (reissued h ident \<longleftrightarrow>
        (\<exists>key v. warning_cookie (remote h [[(''id'', ident)]]) = Some (key, v) \<and> v \<noteq> []))"
proof (intro conjI)
  show "requests_during w (snd (download_from_gdrive h ident destination file_size progress w))
     = (if reissued h ident
        then [[(''id'', ident)],
              [(''id'', ident),
               (''confirm'', snd (the (warning_cookie (remote h [[(''id'', ident)]]))))]]
        else [[(''id'', ident)]])"
    by (simp add: download_from_gdrive_requests session_requests_def)
  show "download_from_gdrive h ident destination file_size progress w =
       save_response_content h
         (if reissued h ident
          then remote h [[(''id'', ident)],
                 [(''id'', ident),
                  (''confirm'', snd (the (warning_cookie (remote h [[(''id'', ident)]]))))]]
          else remote h [[(''id'', ident)]])
         destination file_size progress
         (w\<lparr>log := log w @ map HttpGet
            (requests_during w (snd (download_from_gdrive h ident destination file_size progress w)))\<rparr>)"
    by (simp add: download_from_gdrive_requests)
       (simp add: download_from_gdrive_session saved_response_def session_requests_def)
  show "reissued h ident \<longleftrightarrow>
        (\<exists>key v. warning_cookie (remote h [[(''id'', ident)]]) = Some (key, v) \<and> v \<noteq> [])"
    by (auto simp: reissued_def split: option.splits)
qed

theorem download_from_gdrive_confirmation_witness:
  "reissued token_host ''f1''
   \<and> warning_cookie (remote token_host [[(''id'', ''f1'')]])
       = Some (''download_warning_13058876669334088843'', ''Xy4p'')
   \<and> requests_during empty_world
        (snd (download_from_gdrive token_host ''f1'' ''/data/out.zip'' None False empty_world))
      = [[(''id'', ''f1'')], [(''id'', ''f1''), (''confirm'', ''Xy4p'')]]
   \<and> \<not> reissued empty_token_host ''f1''
   \<and> requests_during empty_world
        (snd (download_from_gdrive empty_token_host ''f1'' ''/data/out.zip'' None False empty_world))
      = [[(''id'', ''f1'')]]"
proof -
  have a: "reissued token_host ''f1''" by code_simp
  have b: "warning_cookie (remote token_host [[(''id'', ''f1'')]])
       = Some (''download_warning_13058876669334088843'', ''Xy4p'')" by code_simp
  have c: "\<not> reissued empty_token_host ''f1''" by code_simp
  show ?thesis
    using download_from_gdrive_confirmation [of empty_world token_host "''f1''" "''/data/out.zip''" None False]
      download_from_gdrive_confirmation [of empty_world empty_token_host "''f1''" "''/data/out.zip''" None False]
      a b c
    by simp
qed

subsection \<open>C8: what the progress sink receives\<close>

lemma during_grow:
  "sink_and_writes (log w') = sink_and_writes (log w) @ es \<Longrightarrow> sink_and_writes_during w w' = es"
  "written_chunks (log w') = written_chunks (log w) @ cs \<Longrightarrow> chunks_written_during w w' = cs"
  by (simp_all add: sink_and_writes_during_def chunks_written_during_def)

lemma save_sink_trace:
  "sink_and_writes_during w (snd (save_response_content h r destination file_size True w))
     = (case file_size of Some n \<Rightarrow> [Emit n (- 1)] | None \<Rightarrow> [])
       @ concat (map (\<lambda>c. [WriteChunk (temp_dst_of h destination) c, Emit (- 1) (int (length c))])
           (chunks_written_during w (snd (save_response_content h r destination file_size True w))))"
proof -
  let ?w' = "snd (save_response_content h r destination file_size True w)"
  let ?cs = "if temp_opens h destination w then filter (\<lambda>c. c \<noteq> []) (iter_content r) else []"
  have "chunks_written_during w ?w' = ?cs"
    by (rule during_grow) (simp add: save_projections)
  moreover have "sink_and_writes_during w ?w' =
      start_emission file_size True
      @ concat (map (\<lambda>c. [WriteChunk (temp_dst_of h destination) c, Emit (- 1) (int (length c))]) ?cs)"
    by (rule during_grow) (simp add: save_projections)
  ultimately show ?thesis
    by (simp add: start_emission_def split: option.splits)
qed

lemma during_shift:
  "sink_and_writes_during (w\<lparr>log := log w @ map HttpGet rs\<rparr>) w' = sink_and_writes_during w w'"
  "chunks_written_during (w\<lparr>log := log w @ map HttpGet rs\<rparr>) w' = chunks_written_during w w'"
proof -
  have "sink_and_writes (map HttpGet rs) = []" "written_chunks (map HttpGet rs) = []"
    by (induction rs) simp_all
  then show "sink_and_writes_during (w\<lparr>log := log w @ map HttpGet rs\<rparr>) w' = sink_and_writes_during w w'"
    and "chunks_written_during (w\<lparr>log := log w @ map HttpGet rs\<rparr>) w' = chunks_written_during w w'"
    by (simp_all add: sink_and_writes_during_def chunks_written_during_def log_simps)
qed

text \<open>
  C8, as stated, fails: a sink passed without an expected size (\<^verbatim>\<open>file_size=None\<close>,
  the default) never receives the opening pair; the first thing that happens is the
  write of the first chunk.
\<close>

theorem no_start_emission_counterexample:
  "sink_and_writes_during empty_world
     (snd (download_from_gdrive linux_host ''f1'' ''/data/out.zip'' None True empty_world))
   = [WriteChunk ''/tmp/tmpq1/out.zip'' [1, 2], Emit (- 1) 2,
      WriteChunk ''/tmp/tmpq1/out.zip'' [3], Emit (- 1) 1]"
  by code_simp

text \<open>
  C8 (amended): when a progress sink is supplied, the sink calls and chunk writes of a
  download are, in order: the pair \<open>(expectedSize, -1)\<close> once, at the start, if an
  expected size was given, and nothing if none was; then, for each chunk written, the
  write followed by the pair \<open>(-1, chunkLength)\<close>. The sink receives nothing else.
\<close>

theorem progress_sink_trace:
  "sink_and_writes_during w (snd (download_from_gdrive h ident destination file_size True w))
     = (case file_size of Some n \<Rightarrow> [Emit n (- 1)] | None \<Rightarrow> [])
       @ concat (map (\<lambda>c. [WriteChunk (temp_dst_of h destination) c, Emit (- 1) (int (length c))])
           (chunks_written_during w (snd (download_from_gdrive h ident destination file_size True w))))"
  using save_sink_trace [of "w\<lparr>log := log w @ map HttpGet (session_requests h ident)\<rparr>" h
      "saved_response h ident" destination file_size]
  by (simp add: download_from_gdrive_session during_shift)

theorem progress_sink_trace_witness:
  "sink_and_writes_during empty_world
     (snd (download_from_gdrive linux_host ''f1'' ''/data/out.zip'' (Some 3) True empty_world))
   = [Emit 3 (- 1),
      WriteChunk ''/tmp/tmpq1/out.zip'' [1, 2], Emit (- 1) 2,
      WriteChunk ''/tmp/tmpq1/out.zip'' [3], Emit (- 1) 1]
   \<and> chunks_written_during empty_world
       (snd (download_from_gdrive linux_host ''f1'' ''/data/out.zip'' (Some 3) True empty_world))
     = [[1, 2], [3]]"
proof -
  have a: "chunks_written_during empty_world
       (snd (download_from_gdrive linux_host ''f1'' ''/data/out.zip'' (Some 3) True empty_world))
     = [[1, 2], [3]]"
    by code_simp
  have b: "temp_dst_of linux_host ''/data/out.zip'' = ''/tmp/tmpq1/out.zip''"
    by code_simp
  show ?thesis
    using progress_sink_trace [of empty_world linux_host "''f1''" "''/data/out.zip''" "Some 3"] a b
    by simp
qed

subsection \<open>C6: the bytes that reach the destination\<close>

lemma write_chunks_fs:
  "fs w f = Some (File old) \<Longrightarrow>
     fs (write_chunks progress f cs w) = (fs w)(f \<mapsto> File (old @ concat cs))"
proof (induction cs arbitrary: w old)
  case Nil
  then show ?case by (simp add: fun_upd_idem)
next
  case (Cons c cs)
  show ?case
  proof (cases "c = []")
    case True
    then show ?thesis using Cons by simp
  next
    case False
    let ?w = "if progress then emit_event (Emit (- 1) (int (length c))) (file_write f c w)
              else file_write f c w"
    have fsw: "fs ?w = (fs w)(f \<mapsto> File (old @ c))"
      using Cons.prems by (simp add: file_write_def emit_event_def)
    have a: "fs (write_chunks progress f cs ?w) = (fs ?w)(f \<mapsto> File ((old @ c) @ concat cs))"
      by (rule Cons.IH) (simp add: fsw)
    have b: "write_chunks progress f (c # cs) w = write_chunks progress f cs ?w"
      using False by (simp add: Let_def)
    show ?thesis
      unfolding b a fsw by simp
  qed
qed

lemma basename_plain: "list_all (\<lambda>c. \<not> is_sep nt c) (basename nt p)"
proof -
  have "\<forall>c \<in> set (takeWhile (\<lambda>c. \<not> is_sep nt c) (rev p)). \<not> is_sep nt c"
    by (auto dest: set_takeWhileD)
  then show ?thesis by (simp add: basename_def list_all_iff)
qed

lemma temp_dst_of_fresh:
  assumes "mkdtemp_name h \<noteq> []" "\<not> is_sep (is_win h) (last (mkdtemp_name h))"
  shows "temp_dst_of h destination = mkdtemp_name h @ [sep (is_win h)] @ basename (is_win h) destination"
proof -
  have "basename (is_win h) destination \<noteq> [] \<Longrightarrow>
      \<not> is_sep (is_win h) (hd (basename (is_win h) destination))"
    using basename_plain [of "is_win h" destination]
    by (cases "basename (is_win h) destination") simp_all
  then show ?thesis
    using assms by (auto simp: temp_dst_of_def path_join_def)
qed

lemma startswith_append: "startswith (x @ r) x"
  by (simp add: startswith_iff_append)

lemma temp_dst_under:
  assumes "mkdtemp_name h \<noteq> []" "\<not> is_sep (is_win h) (last (mkdtemp_name h))"
  shows "under (is_win h) (mkdtemp_name h) (temp_dst_of h destination)"
proof -
  have "startswith (mkdtemp_name h @ [c] @ b) (mkdtemp_name h @ [c])" for c b
    using startswith_append [of "mkdtemp_name h @ [c]" b] by simp
  then show ?thesis
    unfolding temp_dst_of_fresh [OF assms] under_def sep_def by (cases "is_win h") auto
qed

lemma dirname_shorter:
  assumes "basename nt p \<noteq> []"
  shows "dirname nt p \<noteq> p"
proof -
  let ?t = "takeWhile (\<lambda>c. \<not> is_sep nt c) (rev p)"
  let ?d = "dropWhile (\<lambda>c. \<not> is_sep nt c) (rev p)"
  have "length ?t + length ?d = length p"
    using takeWhile_dropWhile_id [of "\<lambda>c. \<not> is_sep nt c" "rev p"]
    by (metis length_append length_rev)
  moreover have "?t \<noteq> []" using assms by (simp add: basename_def)
  ultimately have d: "length ?d < length p" by (cases ?t) auto
  have "length (dropWhile (is_sep nt) ?d) \<le> length ?d"
    by (rule length_dropWhile_le)
  then have "length (dirname nt p) < length p"
    using d by (simp add: dirname_def Let_def)
  then show ?thesis by auto
qed

lemma temp_opens_basename:
  assumes "temp_opens h destination w"
  shows "basename (is_win h) destination \<noteq> []"
proof
  assume e: "basename (is_win h) destination = []"
  show False
  proof (cases "mkdtemp_name h \<noteq> [] \<and> \<not> is_sep (is_win h) (last (mkdtemp_name h))")
    case True
    then have "temp_dst_of h destination = mkdtemp_name h @ [sep (is_win h)]"
      using e by (simp add: temp_dst_of_def path_join_def)
    then show False using assms by (simp add: temp_opens_def is_sep_sep)
  next
    case False
    then have "temp_dst_of h destination = mkdtemp_name h"
      using e by (auto simp: temp_dst_of_def path_join_def)
    then show False using assms by (simp add: temp_opens_def)
  qed
qed

lemma finish_save_destination:
  assumes "finish_save h destination w5 = (Inr (), w')"
    and "fs w5 (temp_dst_of h destination) = Some (File content)"
    and "fs w5 destination \<noteq> Some Dir"
    and "destination \<noteq> temp_dst_of h destination"
    and "dirname (is_win h) destination \<noteq> destination"
    and "\<not> under (is_win h) (mkdtemp_name h) destination"
  shows "fs w' destination = Some (File content)"
  using assms
  by (auto simp: finish_save_def and_then_def os_makedirs_def return_value_def shutil_move_def
      shutil_rmtree_def os_path_exists_def os_path_isdir_def emit_event_def Let_def
      split: if_splits)

lemma save_response_content_destination:
  assumes ok: "save_response_content h r destination file_size progress w = (Inr (), w')"
    and nodir: "\<not> os_path_isdir w destination"
    and fresh: "temp_dir_fresh h destination"
  shows "fs w' destination = Some (File (concat (iter_content r)))"
proof -
  let ?tdst = "temp_dst_of h destination"
  let ?w5 = "write_chunks progress ?tdst (iter_content r)
               (after_open h destination file_size progress w)"
  have tmp: "mkdtemp_name h \<noteq> []" "\<not> is_sep (is_win h) (last (mkdtemp_name h))"
    and out: "\<not> under (is_win h) (mkdtemp_name h) destination"
    using fresh by (simp_all add: temp_dir_fresh_def)
  have opens: "temp_opens h destination w"
    using ok by (auto simp: save_response_content_stages split: if_splits)
  then have fin: "finish_save h destination ?w5 = (Inr (), w')"
    using ok by (auto simp: save_response_content_stages Let_def split: if_splits)
  have ne_tdst: "destination \<noteq> ?tdst"
    using temp_dst_under [OF tmp, of destination] out by auto
  have ne_tmp: "destination \<noteq> mkdtemp_name h"
    using out by (auto simp: under_def)
  have "fs (after_open h destination file_size progress w) ?tdst = Some (File [])"
    by (simp add: after_open_def)
  then have fs5: "fs ?w5 = (fs (after_open h destination file_size progress w))
      (?tdst \<mapsto> File (concat (iter_content r)))"
    using write_chunks_fs [of "after_open h destination file_size progress w" ?tdst "[]"] by simp
  have a: "fs ?w5 ?tdst = Some (File (concat (iter_content r)))"
    by (simp add: fs5)
  have b: "fs ?w5 destination \<noteq> Some Dir"
    using nodir ne_tdst ne_tmp unfolding fs5 by (simp add: after_open_def os_path_isdir_def)
  show ?thesis
    using finish_save_destination [OF fin a b ne_tdst
        dirname_shorter [OF temp_opens_basename [OF opens]] out] .
qed

lemma basename_snoc_plain:
  assumes "list_all (\<lambda>c. \<not> is_sep nt c) b"
  shows "basename nt (a @ [sep nt] @ b) = b"
proof -
  have "takeWhile (\<lambda>c. \<not> is_sep nt c) (rev b @ (sep nt # rev a)) = rev b"
    using assms is_sep_sep [of nt]
    by (subst takeWhile_append2) (auto simp: list_all_iff)
  then show ?thesis by (simp add: basename_def)
qed

lemma last_not_sep:
  assumes "basename nt p \<noteq> []"
  shows "p \<noteq> [] \<and> \<not> is_sep nt (last p)"
  using assms by (cases p rule: rev_cases) (auto simp: basename_def)

lemma real_dst_outside:
  assumes plain: "list_all (\<lambda>c. \<not> is_sep nt c) b"
    and out: "\<not> under nt t d"
    and u: "under nt t (d @ [sep nt] @ b)"
  shows "d @ [sep nt] @ b = t"
proof (rule ccontr)
  assume ne: "d @ [sep nt] @ b \<noteq> t"
  then obtain c r where c: "is_sep nt c" and e: "d @ [sep nt] @ b = t @ [c] @ r"
    using u by (auto simp: under_def startswith_iff_append is_sep_def)
  from e have "d @ (sep nt # b) = t @ (c # r)" by simp
  then obtain us where us: "(d = t @ us \<and> us @ (sep nt # b) = c # r) \<or> (d @ us = t \<and> sep nt # b = us @ (c # r))"
    by (auto simp: append_eq_append_conv2)
  show False
  proof (cases us)
    case Nil
    then have "d = t" using us by auto
    then show False using out by (simp add: under_def)
  next
    case (Cons x xs)
    from us show False
    proof
      assume a: "d = t @ us \<and> us @ (sep nt # b) = c # r"
      then have "x = c" using Cons by simp
      then have "d = t @ [c] @ xs" using a Cons by simp
      then show False using out c by (auto simp: under_def startswith_iff_append is_sep_def)
    next
      assume a: "d @ us = t \<and> sep nt # b = us @ (c # r)"
      then have "b = xs @ (c # r)" using Cons by simp
      then show False using plain c by simp
    qed
  qed
qed

lemma finish_save_into_directory:
  assumes fin: "finish_save h destination w5 = (Inr (), w')"
    and src: "fs w5 (temp_dst_of h destination) = Some (File content)"
    and dir: "fs w5 destination = Some Dir"
    and tmp: "fs w5 (mkdtemp_name h) = Some Dir"
    and real: "path_join (is_win h) destination (basename (is_win h) (temp_dst_of h destination)) = real"
    and ne: "real \<noteq> destination"
    and outr: "real = mkdtemp_name h \<or> \<not> under (is_win h) (mkdtemp_name h) real"
    and outd: "\<not> under (is_win h) (mkdtemp_name h) destination"
    and ned: "dirname (is_win h) destination \<noteq> destination"
  shows "fs w' real = Some (File content) \<and> fs w' destination = Some Dir"
  using assms
  by (auto simp: finish_save_def and_then_def os_makedirs_def return_value_def shutil_move_def
      shutil_rmtree_def os_path_exists_def os_path_isdir_def emit_event_def Let_def
      split: if_splits)


lemma save_response_content_directory:
  assumes ok: "save_response_content h r destination file_size progress w = (Inr (), w')"
    and isdir: "os_path_isdir w destination"
    and fresh: "temp_dir_fresh h destination"
  shows "fs w' (path_join (is_win h) destination (basename (is_win h) destination))
           = Some (File (concat (iter_content r)))
         \<and> fs w' destination = Some Dir"
proof -
  let ?nt = "is_win h"
  let ?base = "basename ?nt destination"
  let ?tdst = "temp_dst_of h destination"
  let ?real = "destination @ [sep ?nt] @ ?base"
  let ?w4 = "after_open h destination file_size progress w"
  let ?w5 = "write_chunks progress ?tdst (iter_content r) ?w4"
  have tmp: "mkdtemp_name h \<noteq> []" "\<not> is_sep ?nt (last (mkdtemp_name h))"
    and out: "\<not> under ?nt (mkdtemp_name h) destination"
    using fresh by (simp_all add: temp_dir_fresh_def)
  have opens: "temp_opens h destination w"
    using ok by (auto simp: save_response_content_stages split: if_splits)
  then have fin: "finish_save h destination ?w5 = (Inr (), w')"
    using ok by (auto simp: save_response_content_stages Let_def split: if_splits)
  have base: "?base \<noteq> []" by (rule temp_opens_basename [OF opens])
  have plain: "list_all (\<lambda>c. \<not> is_sep ?nt c) ?base" by (rule basename_plain)
  have hd: "\<not> is_sep ?nt (hd ?base)" using base plain by (cases ?base) simp_all
  have dest: "destination \<noteq> []" "\<not> is_sep ?nt (last destination)"
    using last_not_sep [OF base] by simp_all
  have tdst: "?tdst = mkdtemp_name h @ [sep ?nt] @ ?base" by (rule temp_dst_of_fresh [OF tmp])
  have bt: "basename ?nt ?tdst = ?base"
    unfolding tdst by (rule basename_snoc_plain [OF plain])
  have real: "path_join ?nt destination (basename ?nt ?tdst) = ?real"
    unfolding bt using base hd dest by (simp add: path_join_def)
  have real': "path_join ?nt destination ?base = ?real"
    using real unfolding bt .
  have ne_tdst: "destination \<noteq> ?tdst"
    using temp_dst_under [OF tmp, of destination] out by auto
  have ne_tmp: "destination \<noteq> mkdtemp_name h"
    using out by (auto simp: under_def)
  have ne_tt: "?tdst \<noteq> mkdtemp_name h" unfolding tdst by simp
  have "fs ?w4 ?tdst = Some (File [])" by (simp add: after_open_def)
  then have fs5: "fs ?w5 = (fs ?w4)(?tdst \<mapsto> File (concat (iter_content r)))"
    using write_chunks_fs [of ?w4 ?tdst "[]"] by simp
  have a: "fs ?w5 ?tdst = Some (File (concat (iter_content r)))" by (simp add: fs5)
  have b: "fs ?w5 destination = Some Dir"
    using isdir ne_tdst ne_tmp unfolding fs5
    by (auto simp: after_open_def os_path_isdir_def)
  have c: "fs ?w5 (mkdtemp_name h) = Some Dir"
    using ne_tt unfolding fs5 by (simp add: after_open_def)
  have d: "?real \<noteq> destination" by simp
  have e: "?real = mkdtemp_name h \<or> \<not> under ?nt (mkdtemp_name h) ?real"
    using real_dst_outside [OF plain out] by blast
  show ?thesis
    unfolding real'
    using finish_save_into_directory [OF fin a b c real d e out
        dirname_shorter [OF base]] .
qed

text \<open>
  C6, as stated, fails: when the destination is an existing directory the call
  succeeds, the destination is still that directory, and the bytes are in a file of
  the same base name inside it.
\<close>

theorem directory_destination_counterexample:
  "os_path_isdir dir_dest_world ''/data/out''
   \<and> fst (save_response_content linux_host sample_response ''/data/out'' None False dir_dest_world)
       = Inr ()
   \<and> fs (snd (save_response_content linux_host sample_response ''/data/out'' None False dir_dest_world))
        ''/data/out'' = Some Dir
   \<and> fs (snd (save_response_content linux_host sample_response ''/data/out'' None False dir_dest_world))
        ''/data/out/out'' = Some (File [1, 2, 3])"
  by code_simp

text \<open>
  C6 (amended): for every successful call whose destination is not an existing
  directory (the temporary directory being a fresh one that does not contain the
  destination), \<^verbatim>\<open>save_response_content\<close>, and so \<^verbatim>\<open>download_from_gdrive\<close> for the
  response it saves, leaves at the destination path a file holding exactly the bytes
  of the response body, whose length is the sum of the lengths of the streamed chunks.
  For every successful call whose destination is an existing directory, the
  destination is still that directory and the bytes of the response body are in the
  file of the destination's own base name inside it.
\<close>

theorem saved_bytes_are_the_body:
  "(save_response_content h r destination file_size progress w = (Inr (), w')
      \<and> \<not> os_path_isdir w destination \<and> temp_dir_fresh h destination \<longrightarrow>
      fs w' destination = Some (File (concat (iter_content r)))
      \<and> length (concat (iter_content r)) = sum_list (map length (iter_content r)))
   \<and> (download_from_gdrive h ident destination file_size progress w = (Inr (), w')
      \<and> \<not> os_path_isdir w destination \<and> temp_dir_fresh h destination \<longrightarrow>
      fs w' destination = Some (File (concat (iter_content (saved_response h ident))))
      \<and> length (concat (iter_content (saved_response h ident)))
          = sum_list (map length (iter_content (saved_response h ident))))
   \<and> (save_response_content h r destination file_size progress w = (Inr (), w')
      \<and> os_path_isdir w destination \<and> temp_dir_fresh h destination \<longrightarrow>
      fs w' destination = Some Dir
      \<and> fs w' (path_join (is_win h) destination (basename (is_win h) destination))
          = Some (File (concat (iter_content r))))
   \<and> (download_from_gdrive h ident destination file_size progress w = (Inr (), w')
      \<and> os_path_isdir w destination \<and> temp_dir_fresh h destination \<longrightarrow>
      fs w' destination = Some Dir
      \<and> fs w' (path_join (is_win h) destination (basename (is_win h) destination))
          = Some (File (concat (iter_content (saved_response h ident)))))"
proof -
  let ?w = "w\<lparr>log := log w @ map HttpGet (session_requests h ident)\<rparr>"
  have dir: "os_path_isdir ?w destination = os_path_isdir w destination"
    by (simp add: os_path_isdir_def)
  have 1: "fs w' destination = Some (File (concat (iter_content r)))"
    if "save_response_content h r destination file_size progress w = (Inr (), w')
      \<and> \<not> os_path_isdir w destination \<and> temp_dir_fresh h destination"
    using that save_response_content_destination by blast
  have 2: "fs w' destination = Some (File (concat (iter_content (saved_response h ident))))"
    if a: "download_from_gdrive h ident destination file_size progress w = (Inr (), w')
      \<and> \<not> os_path_isdir w destination \<and> temp_dir_fresh h destination"
  proof -
    have "save_response_content h (saved_response h ident) destination file_size progress ?w
        = (Inr (), w')"
      using a by (simp add: download_from_gdrive_session)
    then show ?thesis
      using a dir save_response_content_destination by blast
  qed
  have 3: "fs w' destination = Some Dir
      \<and> fs w' (path_join (is_win h) destination (basename (is_win h) destination))
          = Some (File (concat (iter_content r)))"
    if "save_response_content h r destination file_size progress w = (Inr (), w')
      \<and> os_path_isdir w destination \<and> temp_dir_fresh h destination"
    using that save_response_content_directory by blast
  have 4: "fs w' destination = Some Dir
      \<and> fs w' (path_join (is_win h) destination (basename (is_win h) destination))
          = Some (File (concat (iter_content (saved_response h ident))))"
    if a: "download_from_gdrive h ident destination file_size progress w = (Inr (), w')
      \<and> os_path_isdir w destination \<and> temp_dir_fresh h destination"
  proof -
    have "save_response_content h (saved_response h ident) destination file_size progress ?w
        = (Inr (), w')"
      using a by (simp add: download_from_gdrive_session)
    then show ?thesis
      using a dir save_response_content_directory by blast
  qed
  show ?thesis
    using 1 2 3 4 by (simp add: length_concat)
qed

theorem saved_bytes_are_the_body_witness:
  "fst (save_response_content linux_host sample_response ''/data/out.zip'' (Some 3) False data_world)
     = Inr ()
   \<and> \<not> os_path_isdir data_world ''/data/out.zip''
   \<and> temp_dir_fresh linux_host ''/data/out.zip''
   \<and> fs (snd (save_response_content linux_host sample_response ''/data/out.zip'' (Some 3) False data_world))
        ''/data/out.zip'' = Some (File [1, 2, 3])
   \<and> length (concat (iter_content sample_response)) = 3
   \<and> fst (download_from_gdrive token_host ''f1'' ''/data/out.zip'' None False data_world) = Inr ()
   \<and> temp_dir_fresh token_host ''/data/out.zip''
   \<and> fs (snd (download_from_gdrive token_host ''f1'' ''/data/out.zip'' None False data_world))
        ''/data/out.zip'' = Some (File [7, 7, 7])
   \<and> fst (save_response_content linux_host sample_response ''/data/out'' (Some 3) True dir_dest_world)
       = Inr ()
   \<and> os_path_isdir dir_dest_world ''/data/out''
   \<and> temp_dir_fresh linux_host ''/data/out''
   \<and> fs (snd (save_response_content linux_host sample_response ''/data/out'' (Some 3) True dir_dest_world))
        ''/data/out/out'' = Some (File [1, 2, 3])
   \<and> fst (download_from_gdrive token_host ''f1'' ''/data/out'' None False dir_dest_world) = Inr ()
   \<and> temp_dir_fresh token_host ''/data/out''
   \<and> fs (snd (download_from_gdrive token_host ''f1'' ''/data/out'' None False dir_dest_world))
        ''/data/out/out'' = Some (File [7, 7, 7])"
proof -
  let ?s = "save_response_content linux_host sample_response ''/data/out.zip'' (Some 3) False data_world"
  let ?d = "download_from_gdrive token_host ''f1'' ''/data/out.zip'' None False data_world"
  let ?s2 = "save_response_content linux_host sample_response ''/data/out'' (Some 3) True dir_dest_world"
  let ?d2 = "download_from_gdrive token_host ''f1'' ''/data/out'' None False dir_dest_world"
  have a: "fst ?s = Inr ()" by code_simp
  have b: "\<not> os_path_isdir data_world ''/data/out.zip''" by code_simp
  have c: "temp_dir_fresh linux_host ''/data/out.zip''" by code_simp
  have d: "concat (iter_content sample_response) = [1, 2, 3]" by code_simp
  have e: "fst ?d = Inr ()" by code_simp
  have f: "temp_dir_fresh token_host ''/data/out.zip''" by code_simp
  have g: "concat (iter_content (saved_response token_host ''f1'')) = [7, 7, 7]" by code_simp
  have i: "fst ?s2 = Inr ()" by code_simp
  have j: "os_path_isdir dir_dest_world ''/data/out''" by code_simp
  have k: "temp_dir_fresh linux_host ''/data/out''" by code_simp
  have l: "fst ?d2 = Inr ()" by code_simp
  have m: "temp_dir_fresh token_host ''/data/out''" by code_simp
  have n: "path_join (is_win linux_host) ''/data/out'' (basename (is_win linux_host) ''/data/out'')
      = ''/data/out/out''" by code_simp
  have o: "path_join (is_win token_host) ''/data/out'' (basename (is_win token_host) ''/data/out'')
      = ''/data/out/out''" by code_simp
  have a': "?s = (Inr (), snd ?s)" using a by (cases ?s) simp
  have e': "?d = (Inr (), snd ?d)" using e by (cases ?d) simp
  have i': "?s2 = (Inr (), snd ?s2)" using i by (cases ?s2) simp
  have l': "?d2 = (Inr (), snd ?d2)" using l by (cases ?d2) simp
  show ?thesis
    using saved_bytes_are_the_body [of linux_host sample_response "''/data/out.zip''" "Some 3" False
        data_world "snd ?s" "''f1''"]
      saved_bytes_are_the_body [of token_host sample_response "''/data/out.zip''" None False
        data_world "snd ?d" "''f1''"]
      saved_bytes_are_the_body [of linux_host sample_response "''/data/out''" "Some 3" True
        dir_dest_world "snd ?s2" "''f1''"]
      saved_bytes_are_the_body [of token_host sample_response "''/data/out''" None False
        dir_dest_world "snd ?d2" "''f1''"]
      a a' b c d e e' f g i i' j k l l' m n o
    by simp
qed

subsection \<open>C9: the legacy directory is only read\<close>

lemma under_iff:
  "under nt d p \<longleftrightarrow> p = d \<or> (\<exists>c r. is_sep nt c \<and> p = d @ [c] @ r)"
  by (auto simp: under_def startswith_iff_append is_sep_def)

lemma under_sep: "under nt a (a @ [sep nt] @ r)"
  using is_sep_sep [of nt] by (auto simp: under_iff)

lemma under_trans: "under nt a b \<Longrightarrow> under nt b c \<Longrightarrow> under nt a c"
  by (auto simp: under_iff)

lemma append_snoc_cases:
  assumes "a @ [c] @ r = b @ [c'] @ r'"
  shows "a = b \<or> (\<exists>s. b = a @ [c] @ s) \<or> (\<exists>s. a = b @ [c'] @ s)"
proof -
  from assms have "a @ (c # r) = b @ (c' # r')" by simp
  then obtain us where "(a = b @ us \<and> us @ (c # r) = c' # r') \<or> (a @ us = b \<and> c # r = us @ (c' # r'))"
    by (auto simp: append_eq_append_conv2)
  then show ?thesis
    by (cases us) auto
qed

lemma under_comparable:
  assumes "under nt a p" "under nt b p"
  shows "under nt a b \<or> under nt b a"
proof (cases "p = a \<or> p = b")
  case True
  then show ?thesis using assms by auto
next
  case False
  then obtain c r where cr: "is_sep nt c" "p = a @ [c] @ r"
    using assms(1) by (auto simp: under_iff)
  from False obtain c' r' where cr': "is_sep nt c'" "p = b @ [c'] @ r'"
    using assms(2) by (auto simp: under_iff)
  have "a = b \<or> (\<exists>s. b = a @ [c] @ s) \<or> (\<exists>s. a = b @ [c'] @ s)"
    using append_snoc_cases [of a c r b c' r'] cr(2) cr'(2) by simp
  then show ?thesis
    using cr(1) cr'(1) by (auto simp: under_iff)
qed

lemma acdc_paths:
  "\<exists>H. get_acdc_java_path h = (H @ ''acdc-java'', H @ ''.acdc-java'')"
proof (cases "home h \<noteq> [] \<and> \<not> is_sep (is_win h) (last (home h))")
  case True
  then have "get_acdc_java_path h =
      ((home h @ [sep (is_win h)]) @ ''acdc-java'', (home h @ [sep (is_win h)]) @ ''.acdc-java'')"
    by (simp add: get_acdc_java_path_def joinp_def path_join_def is_sep_def)
  then show ?thesis by blast
next
  case False
  then have "get_acdc_java_path h = (home h @ ''acdc-java'', home h @ ''.acdc-java'')"
    by (auto simp: get_acdc_java_path_def joinp_def path_join_def is_sep_def)
  then show ?thesis by blast
qed

lemma primary_legacy_apart:
  "\<not> under (is_win h) (fst (get_acdc_java_path h)) (snd (get_acdc_java_path h))"
  "\<not> under (is_win h) (snd (get_acdc_java_path h)) (fst (get_acdc_java_path h))"
proof -
  obtain H where H: "get_acdc_java_path h = (H @ ''acdc-java'', H @ ''.acdc-java'')"
    using acdc_paths by blast
  show "\<not> under (is_win h) (fst (get_acdc_java_path h)) (snd (get_acdc_java_path h))"
    by (auto simp: H under_iff)
  show "\<not> under (is_win h) (snd (get_acdc_java_path h)) (fst (get_acdc_java_path h))"
    by (auto simp: H under_iff)
qed

lemma writable_not_legacy:
  assumes "temp_dir_apart h" "writable h q"
  shows "\<not> under (is_win h) (snd (get_acdc_java_path h)) q"
proof
  assume l: "under (is_win h) (snd (get_acdc_java_path h)) q"
  from assms(2) show False
    unfolding writable_def
  proof
    assume "under (is_win h) (fst (get_acdc_java_path h)) q"
    then show False
      using under_comparable [OF l] primary_legacy_apart [of h] by blast
  next
    assume "under (is_win h) (mkdtemp_name h) q"
    then show False
      using under_comparable [OF l] assms(1) by (auto simp: temp_dir_apart_def)
  qed
qed

lemma keeps_refl: "keeps h w w"
  by (simp add: keeps_def)

lemma keeps_emit:
  "keeps h w0 w \<Longrightarrow> list_all (writable h) (write_targets e) \<Longrightarrow> keeps h w0 (emit_event e w)"
  by (simp add: keeps_def emit_event_def)

lemma keeps_update:
  assumes "keeps h w0 w" "temp_dir_apart h" "writable h q"
  shows "keeps h w0 (w\<lparr>fs := (fs w)(q := v)\<rparr>)"
  using assms(1) writable_not_legacy [OF assms(2,3)] by (auto simp: keeps_def)

lemma keeps_makedirs:
  assumes "keeps h w0 w" "temp_dir_apart h" "writable h p"
  shows "keeps h w0 (snd (os_makedirs p w))"
  using keeps_emit [OF keeps_update [OF assms, of "Some Dir"], of "Makedirs p"] assms(1,3)
  by (simp add: os_makedirs_def)

lemma keeps_remove:
  assumes "keeps h w0 w" "temp_dir_apart h" "writable h p"
  shows "keeps h w0 (snd (os_remove p w))"
  using keeps_emit [OF keeps_update [OF assms, of None], of "Remove p"] assms(1,3)
  by (simp add: os_remove_def split: option.splits node.splits)

lemma keeps_move:
  assumes "keeps h w0 w" "temp_dir_apart h" "writable h src" "writable h dst"
    and "writable h (path_join nt dst (basename nt src))"
  shows "keeps h w0 (snd (shutil_move nt src dst w))"
proof -
  let ?real = "if os_path_isdir w dst then path_join nt dst (basename nt src) else dst"
  have r: "writable h ?real" using assms(4,5) by simp
  have e: "list_all (writable h) (write_targets (Move src dst))"
    using assms(3,4) by simp
  have "keeps h w0 (w\<lparr>fs := ((fs w)(?real := fs w src))(src := None)\<rparr>)"
    using keeps_update [OF keeps_update [OF assms(1,2) r, of "fs w src"] assms(2,3), of None]
    by simp
  then show ?thesis
    using keeps_emit [OF _ e] assms(1) by (simp add: shutil_move_def Let_def)
qed

lemma keeps_rmtree:
  assumes "keeps h w0 w" "temp_dir_apart h"
  shows "keeps h w0 (shutil_rmtree (is_win h) (mkdtemp_name h) w)"
proof -
  have "\<not> under (is_win h) (mkdtemp_name h) p"
    if "under (is_win h) (snd (get_acdc_java_path h)) p" for p
    using under_comparable [OF that, of "mkdtemp_name h"] assms(2)
    by (auto simp: temp_dir_apart_def)
  then have "keeps h w0 (w\<lparr>fs := (\<lambda>q. if under (is_win h) (mkdtemp_name h) q then None else fs w q)\<rparr>)"
    using assms(1) by (auto simp: keeps_def)
  moreover have "list_all (writable h) (write_targets (Rmtree (mkdtemp_name h)))"
    by (simp add: writable_def under_def)
  ultimately show ?thesis
    using keeps_emit by (simp add: shutil_rmtree_def)
qed

lemma keeps_write_chunks:
  assumes "temp_dir_apart h" "writable h f"
  shows "keeps h w0 w \<Longrightarrow> keeps h w0 (write_chunks progress f cs w)"
proof (induction cs arbitrary: w)
  case Nil
  then show ?case by simp
next
  case (Cons c cs)
  let ?v = "Some (File ((case fs w f of Some (File b) \<Rightarrow> b | _ \<Rightarrow> []) @ c))"
  have 1: "keeps h w0 (file_write f c w)"
    using keeps_emit [OF keeps_update [OF Cons.prems assms, of ?v], of "WriteChunk f c"] assms(2)
    by (simp add: file_write_def)
  have 2: "keeps h w0 (emit_event (Emit a b) (file_write f c w))" for a b
    using keeps_emit [OF 1, of "Emit a b"] by simp
  show ?case
  proof (cases "c = []")
    case True
    then show ?thesis using Cons.IH [OF Cons.prems] by simp
  next
    case False
    then show ?thesis
      using Cons.IH [OF 1] Cons.IH [OF 2] by (cases progress) (simp_all add: Let_def)
  qed
qed

lemma keeps_after_open:
  assumes "keeps h w0 w" "temp_dir_apart h"
  shows "keeps h w0 (before_open h file_size progress w)"
    and "keeps h w0 (after_open h destination file_size progress w)"
proof -
  have tmp: "mkdtemp_name h \<noteq> []" "\<not> is_sep (is_win h) (last (mkdtemp_name h))"
    using assms(2) by (simp_all add: temp_dir_apart_def)
  have wt: "writable h (mkdtemp_name h)"
    by (simp add: writable_def under_def)
  have wd: "writable h (temp_dst_of h destination)"
    using temp_dst_under [OF tmp] by (simp add: writable_def)
  have nl: "\<not> under (is_win h) (snd (get_acdc_java_path h)) (mkdtemp_name h)"
    "\<not> under (is_win h) (snd (get_acdc_java_path h)) (temp_dst_of h destination)"
    using writable_not_legacy [OF assms(2)] wt wd by blast+
  have se: "list_all (\<lambda>e. list_all (writable h) (write_targets e)) (start_emission file_size progress)"
    by (simp add: start_emission_def split: option.splits)
  show "keeps h w0 (before_open h file_size progress w)"
    using assms(1) nl wt se by (auto simp: keeps_def before_open_def)
  show "keeps h w0 (after_open h destination file_size progress w)"
    using assms(1) nl wt wd se by (auto simp: keeps_def after_open_def)
qed

lemma keeps_and_then:
  assumes "keeps h w0 (snd (m w))"
    and "\<And>x w'. keeps h w0 w' \<Longrightarrow> keeps h w0 (snd (f x w'))"
  shows "keeps h w0 (snd (and_then m f w))"
  using assms by (cases "m w") (auto simp: and_then_def split: sum.splits)

lemma path_join_proper:
  assumes "a \<noteq> []" "\<not> is_sep nt (last a)" "relative_name nt b"
  shows "path_join nt a b = a @ [sep nt] @ b"
  using assms by (auto simp: path_join_def relative_name_def)

lemma under_path_join:
  assumes "a \<noteq> []" "\<not> is_sep nt (last a)" "relative_name nt b"
  shows "under nt a (path_join nt a b)"
  by (simp only: path_join_proper [OF assms] under_sep)

lemma basename_relative: "relative_name nt (basename nt p)"
  using basename_plain [of nt p] by (cases "basename nt p") (simp_all add: relative_name_def)

lemma plain_relative: "plain_name nt b \<Longrightarrow> relative_name nt b"
  using plain_name_hd by (simp add: relative_name_def)

lemma writable_under: "writable h a \<Longrightarrow> under (is_win h) a q \<Longrightarrow> writable h q"
  using under_trans by (auto simp: writable_def)

lemma keeps_finish_save:
  assumes "keeps h w0 w" "temp_dir_apart h" "writable h destination"
    and "writable h (dirname (is_win h) destination)"
    and "writable h (path_join (is_win h) destination (basename (is_win h) (temp_dst_of h destination)))"
  shows "keeps h w0 (snd (finish_save h destination w))"
proof -
  have tmp: "mkdtemp_name h \<noteq> []" "\<not> is_sep (is_win h) (last (mkdtemp_name h))"
    using assms(2) by (simp_all add: temp_dir_apart_def)
  have wd: "writable h (temp_dst_of h destination)"
    using temp_dst_under [OF tmp] by (simp add: writable_def)
  have 1: "keeps h w0 (snd ((if \<not> os_path_exists w (dirname (is_win h) destination)
        then os_makedirs (dirname (is_win h) destination) else return_value ()) w))"
    using keeps_makedirs [OF assms(1,2,4)] assms(1) by (simp add: return_value_def)
  have 2: "keeps h w0 (snd (and_then (shutil_move (is_win h) (temp_dst_of h destination) destination)
        (\<lambda>_ w7. (Inr (), shutil_rmtree (is_win h) (mkdtemp_name h) w7)) w'))"
    if "keeps h w0 w'" for w'
    using keeps_and_then [of h w0 "shutil_move (is_win h) (temp_dst_of h destination) destination" w'
        "\<lambda>_ w7. (Inr (), shutil_rmtree (is_win h) (mkdtemp_name h) w7)"]
      keeps_move [OF that assms(2) wd assms(3,5)] keeps_rmtree [OF _ assms(2)]
    by simp
  show ?thesis
    unfolding finish_save_def
    using keeps_and_then [of h w0
        "if \<not> os_path_exists w (dirname (is_win h) destination)
         then os_makedirs (dirname (is_win h) destination) else return_value ()" w
        "\<lambda>_. and_then (shutil_move (is_win h) (temp_dst_of h destination) destination)
           (\<lambda>_ w7. (Inr (), shutil_rmtree (is_win h) (mkdtemp_name h) w7))"] 1 2
    by blast
qed

lemma keeps_save:
  assumes "keeps h w0 w" "temp_dir_apart h" "writable h destination"
    and "writable h (dirname (is_win h) destination)"
    and "writable h (path_join (is_win h) destination (basename (is_win h) (temp_dst_of h destination)))"
  shows "keeps h w0 (snd (save_response_content h r destination file_size progress w))"
proof -
  have tmp: "mkdtemp_name h \<noteq> []" "\<not> is_sep (is_win h) (last (mkdtemp_name h))"
    using assms(2) by (simp_all add: temp_dir_apart_def)
  have wd: "writable h (temp_dst_of h destination)"
    using temp_dst_under [OF tmp] by (simp add: writable_def)
  let ?w5 = "write_chunks progress (temp_dst_of h destination) (iter_content r)
               (after_open h destination file_size progress w)"
  have 5: "keeps h w0 ?w5"
    using keeps_write_chunks [OF assms(2) wd keeps_after_open(2) [OF assms(1,2)]] .
  show ?thesis
    using 5 keeps_finish_save [OF 5 assms(2-5)] keeps_after_open(1) [OF assms(1,2)]
    by (simp add: save_response_content_stages Let_def)
qed

lemma keeps_requests: "keeps h w0 w \<Longrightarrow> keeps h w0 (w\<lparr>log := log w @ map HttpGet rs\<rparr>)"
  by (induction rs rule: rev_induct) (auto simp: keeps_def list_all_iff)

lemma keeps_download_from_gdrive:
  assumes "keeps h w0 w" "temp_dir_apart h" "writable h destination"
    and "writable h (dirname (is_win h) destination)"
    and "writable h (path_join (is_win h) destination (basename (is_win h) (temp_dst_of h destination)))"
  shows "keeps h w0 (snd (download_from_gdrive h ident destination file_size progress w))"
  unfolding download_from_gdrive_session
  by (rule keeps_save [OF keeps_requests [OF assms(1)] assms(2-5)])

lemma write_members_frame:
  "list_all (\<lambda>m. joinp h dest (fst m) \<noteq> p) ms \<Longrightarrow> write_members h dest ms f p = f p"
  by (induction ms arbitrary: f) auto

lemma keeps_extract_zip:
  assumes "keeps h w0 w" "temp_dir_apart h" "archive_names_relative h"
    and "writable h dest" "dest \<noteq> []" "\<not> is_sep (is_win h) (last dest)"
  shows "keeps h w0 (snd (extract_zip h archive dest w))"
proof (cases "\<exists>b ms. fs w archive = Some (File b) \<and> unzip h b = Some ms")
  case False
  then show ?thesis
    using assms(1) by (auto simp: extract_zip_def split: option.splits node.splits)
next
  case True
  then obtain b ms where b: "fs w archive = Some (File b)" "unzip h b = Some ms" by blast
  have rel: "relative_name (is_win h) (fst m)" if "m \<in> set ms" for m
    using assms(3) b(2) that by (auto simp: archive_names_relative_def list_all_iff)
  have "joinp h dest (fst m) \<noteq> p"
    if "m \<in> set ms" "under (is_win h) (snd (get_acdc_java_path h)) p" for m p
    using writable_not_legacy [OF assms(2) writable_under [OF assms(4)
          under_path_join [OF assms(5,6) rel [OF that(1)]]]] that(2)
    by (auto simp: joinp_def)
  then have "write_members h dest ms (fs w) p = fs w p"
    if "under (is_win h) (snd (get_acdc_java_path h)) p" for p
    using that by (intro write_members_frame) (auto simp: list_all_iff)
  then have "keeps h w0 (w\<lparr>fs := write_members h dest ms (fs w)\<rparr>)"
    using assms(1) by (simp add: keeps_def)
  then show ?thesis
    using keeps_emit [of h w0 _ "ExtractAll archive dest"] assms(4) b
    by (simp add: extract_zip_def)
qed

lemma primary_proper:
  "fst (get_acdc_java_path h) \<noteq> []" "\<not> is_sep (is_win h) (last (fst (get_acdc_java_path h)))"
proof -
  obtain H where H: "get_acdc_java_path h = (H @ ''acdc-java'', H @ ''.acdc-java'')"
    using acdc_paths by blast
  show "fst (get_acdc_java_path h) \<noteq> []" "\<not> is_sep (is_win h) (last (fst (get_acdc_java_path h)))"
    by (simp_all add: H is_sep_def)
qed

lemma get_java_info_folder:
  assumes "get_java_info h = Inr (Some (java_path, jre_path, fid, sz))"
  shows "\<exists>folder. plain_name (is_win h) folder
           \<and> java_path = joinp h (fst (get_acdc_java_path h)) folder"
proof -
  obtain b folder name where p: "java_profile h b = Inr (Some (folder, name, fid, sz))"
    and j: "java_path = joinp h (fst (get_acdc_java_path h)) folder"
    using assms
    by (auto simp: get_java_info_def Let_def split: sum.splits option.splits prod.splits)
  show ?thesis
    using java_profile_plain [OF p] j by blast
qed

text \<open>The download, extraction and removal shared by the two installers.\<close>

lemma keeps_install:
  assumes apart: "temp_dir_apart h" and rel: "archive_names_relative h"
    and k: "keeps h w0 w"
    and folder: "plain_name (is_win h) folder" and name: "plain_name (is_win h) zipname"
    and jp: "java_path = joinp h (fst (get_acdc_java_path h)) folder"
  shows "keeps h w0 (snd (and_then (download_from_gdrive h fid (joinp h java_path zipname) fsz False)
           (\<lambda>_. and_then (extract_zip h (joinp h java_path zipname) java_path)
              (\<lambda>_. and_then (os_remove (joinp h java_path zipname))
                 (\<lambda>_. return_value res))) w))"
    and "writable h java_path"
proof -
  let ?nt = "is_win h"
  let ?zip = "joinp h java_path zipname"
  have jp_under: "under ?nt (fst (get_acdc_java_path h)) java_path"
    unfolding jp joinp_def
    by (rule under_path_join [OF primary_proper plain_relative [OF folder]])
  have jp_proper: "java_path \<noteq> []" "\<not> is_sep ?nt (last java_path)"
    using path_join_plain_last [OF folder, of "fst (get_acdc_java_path h)"] plain_name_last [OF folder]
    by (simp_all add: jp joinp_def)
  show wj: "writable h java_path"
    using jp_under by (simp add: writable_def)
  have zip_under: "under ?nt java_path ?zip"
    unfolding joinp_def by (rule under_path_join [OF jp_proper plain_relative [OF name]])
  have wz: "writable h ?zip"
    using writable_under [OF wj zip_under] .
  have zip_proper: "?zip \<noteq> []" "\<not> is_sep ?nt (last ?zip)"
    using path_join_plain_last [OF name, of java_path] plain_name_last [OF name]
    by (simp_all add: joinp_def)
  have dn: "dirname ?nt ?zip = java_path"
    unfolding joinp_def by (rule dirname_path_join [OF name jp_proper])
  have wm: "writable h (path_join ?nt ?zip (basename ?nt (temp_dst_of h ?zip)))"
    using writable_under [OF wz under_path_join [OF zip_proper basename_relative]] .
  have 1: "keeps h w0 (snd (download_from_gdrive h fid ?zip fsz False w))"
    using keeps_download_from_gdrive [OF k apart wz _ wm] wj by (simp add: dn)
  have 2: "keeps h w0 (snd (extract_zip h ?zip java_path w'))" if "keeps h w0 w'" for w'
    using keeps_extract_zip [OF that apart rel wj jp_proper] .
  have 3: "keeps h w0 (snd (os_remove ?zip w'))" if "keeps h w0 w'" for w'
    using keeps_remove [OF that apart wz] .
  have 4: "keeps h w0 (snd (and_then (os_remove ?zip) (\<lambda>_. return_value res) w'))"
    if "keeps h w0 w'" for w'
    using keeps_and_then [of h w0 "os_remove ?zip" w' "\<lambda>_. return_value res"] 3 [OF that]
    by (simp add: return_value_def)
  have 5: "keeps h w0 (snd (and_then (extract_zip h ?zip java_path)
        (\<lambda>_. and_then (os_remove ?zip) (\<lambda>_. return_value res)) w'))"
    if "keeps h w0 w'" for w'
    using keeps_and_then [of h w0 "extract_zip h ?zip java_path" w'
        "\<lambda>_. and_then (os_remove ?zip) (\<lambda>_. return_value res)"] 2 [OF that] 4
    by blast
  show "keeps h w0 (snd (and_then (download_from_gdrive h fid ?zip fsz False)
           (\<lambda>_. and_then (extract_zip h ?zip java_path)
              (\<lambda>_. and_then (os_remove ?zip) (\<lambda>_. return_value res))) w))"
    using keeps_and_then [of h w0 "download_from_gdrive h fid ?zip fsz False" w
        "\<lambda>_. and_then (extract_zip h ?zip java_path)
              (\<lambda>_. and_then (os_remove ?zip) (\<lambda>_. return_value res))"] 1 5
    by blast
qed

lemma keeps_download_java:
  assumes "temp_dir_apart h" "archive_names_relative h"
  shows "keeps h w (snd (download_java h w))"
proof (cases "get_java_info h")
  case (Inl e)
  then show ?thesis by (simp add: download_java_def keeps_refl)
next
  case (Inr info)
  show ?thesis
  proof (cases info)
    case None
    then show ?thesis using Inr by (simp add: download_java_def keeps_refl)
  next
    case (Some t)
    obtain java_path jre_path fid sz where t: "t = (java_path, jre_path, fid, sz)"
      by (cases t) auto
    obtain folder where folder: "plain_name (is_win h) folder"
      and jp: "java_path = joinp h (fst (get_acdc_java_path h)) folder"
      using get_java_info_folder [of h java_path jre_path fid sz] Inr Some t by auto
    have name: "plain_name (is_win h) ''java_temp.zip''"
      by (simp add: plain_name_def is_sep_def)
    have inst: "keeps h w (snd (and_then (download_from_gdrive h fid (joinp h java_path ''java_temp.zip'') (Some sz) False)
           (\<lambda>_. and_then (extract_zip h (joinp h java_path ''java_temp.zip'') java_path)
              (\<lambda>_. and_then (os_remove (joinp h java_path ''java_temp.zip''))
                 (\<lambda>_. return_value jre_path))) w'))"
      if "keeps h w w'" for w'
      using keeps_install(1) [OF assms that folder name jp] .
    have wj: "writable h java_path"
      using keeps_install(2) [OF assms keeps_refl folder name jp] .
    have mk: "keeps h w (snd ((if \<not> os_path_exists w java_path
          then os_makedirs java_path else return_value ()) w))"
      using keeps_makedirs [OF keeps_refl assms(1) wj, of w] by (simp add: return_value_def keeps_refl)
    have "keeps h w (snd (and_then
        (if \<not> os_path_exists w java_path then os_makedirs java_path else return_value ())
        (\<lambda>_. and_then (download_from_gdrive h fid (joinp h java_path ''java_temp.zip'') (Some sz) False)
           (\<lambda>_. and_then (extract_zip h (joinp h java_path ''java_temp.zip'') java_path)
              (\<lambda>_. and_then (os_remove (joinp h java_path ''java_temp.zip''))
                 (\<lambda>_. return_value jre_path)))) w))"
      using keeps_and_then [of h w
          "if \<not> os_path_exists w java_path then os_makedirs java_path else return_value ()" w
          "\<lambda>_. and_then (download_from_gdrive h fid (joinp h java_path ''java_temp.zip'') (Some sz) False)
           (\<lambda>_. and_then (extract_zip h (joinp h java_path ''java_temp.zip'') java_path)
              (\<lambda>_. and_then (os_remove (joinp h java_path ''java_temp.zip''))
                 (\<lambda>_. return_value jre_path)))"] mk inst
      by blast
    then show ?thesis
      using Inr Some t by (auto simp: download_java_def Let_def keeps_refl split: prod.splits)
  qed
qed

lemma keeps_download_jdk:
  assumes "temp_dir_apart h" "archive_names_relative h"
  shows "keeps h w (snd (download_jdk h w))"
proof -
  let ?jp = "joinp h (joinp h (home h) ''acdc-java'') ''win64''"
  have jp: "?jp = joinp h (fst (get_acdc_java_path h)) ''win64''"
    by (simp add: get_acdc_java_path_def)
  have name: "plain_name (is_win h) ''jdk_temp.zip''"
    by (simp add: plain_name_def is_sep_def)
  show ?thesis
    using keeps_install(1) [OF assms keeps_refl jdk_names_plain(1) name jp,
        where w = w and fid = "''1G6SNk5vESqgdxob5UQv87PgVpIJa_dTe''" and fsz = "Some 135524352"
          and res = "joinp h ?jp ''jdk1.8.0_321''"]
    by (auto simp: download_jdk_def get_jdk_info_paths get_acdc_java_path_def
        primary_runtime_dir_def Let_def keeps_refl)
qed

text \<open>
  C9, as stated, fails in its last part: a download writes outside
  \<^verbatim>\<open><home>/acdc-java\<close>, namely to the temporary directory and the temporary file in it.
\<close>

theorem temp_dir_write_counterexample:
  "fst (get_acdc_java_path linux_host) = ''/home/u/acdc-java''
   \<and> List.member (log (snd (download_java linux_host empty_world))) (Mkdtemp ''/tmp/tmpq1'')
   \<and> List.member (log (snd (download_java linux_host empty_world)))
        (WriteChunk ''/tmp/tmpq1/java_temp.zip'' [1, 2])
   \<and> \<not> under (is_win linux_host) ''/home/u/acdc-java'' ''/tmp/tmpq1''
   \<and> \<not> under (is_win linux_host) ''/home/u/acdc-java'' ''/tmp/tmpq1/java_temp.zip''"
  by code_simp

text \<open>
  C9 (amended): provided the temporary directory handed out by \<^verbatim>\<open>mkdtemp\<close> neither
  contains the legacy directory \<^verbatim>\<open><home>/.acdc-java\<close> nor lies in it, and archive
  members are extracted under relative names, \<^verbatim>\<open>download_java\<close> and
  \<^verbatim>\<open>download_jdk\<close> (with the retrieve and extract calls they make) leave every path
  under the legacy directory exactly as it was, and every write they issue goes to a
  path under the primary directory \<^verbatim>\<open><home>/acdc-java\<close> or under the temporary
  directory.
\<close>

theorem legacy_directory_untouched:
  "temp_dir_apart h \<and> archive_names_relative h \<longrightarrow>
     (under (is_win h) (snd (get_acdc_java_path h)) p \<longrightarrow>
        fs (snd (download_java h w)) p = fs w p \<and> fs (snd (download_jdk h w)) p = fs w p)
     \<and> list_all (\<lambda>e. list_all (writable h) (write_targets e))
          (drop (length (log w)) (log (snd (download_java h w))))
     \<and> list_all (\<lambda>e. list_all (writable h) (write_targets e))
          (drop (length (log w)) (log (snd (download_jdk h w))))"
  using keeps_download_java [of h w] keeps_download_jdk [of h w]
  by (auto simp: keeps_def)

theorem legacy_directory_untouched_witness:
  "temp_dir_apart linux_host \<and> archive_names_relative linux_host
   \<and> under (is_win linux_host) (snd (get_acdc_java_path linux_host)) ''/home/u/.acdc-java/notes.txt''
   \<and> fst (download_java linux_host stale_legacy_world) = Inr ''/home/u/acdc-java/linux/jre1.8.0_301''
   \<and> length (log (snd (download_java linux_host stale_legacy_world))) = 10
   \<and> fs (snd (download_java linux_host stale_legacy_world)) ''/home/u/.acdc-java/notes.txt''
       = Some (File [9])
   \<and> fs (snd (download_jdk linux_host stale_legacy_world)) ''/home/u/.acdc-java/notes.txt''
       = Some (File [9])
   \<and> list_all (\<lambda>e. list_all (writable linux_host) (write_targets e))
        (log (snd (download_java linux_host stale_legacy_world)))
   \<and> list_all (\<lambda>e. list_all (writable linux_host) (write_targets e))
        (log (snd (download_jdk linux_host stale_legacy_world)))"
proof -
  have a: "temp_dir_apart linux_host" by code_simp
  have b: "archive_names_relative linux_host"
    by (simp add: archive_names_relative_def linux_host_def relative_name_def is_sep_def)
  have c: "under (is_win linux_host) (snd (get_acdc_java_path linux_host)) ''/home/u/.acdc-java/notes.txt''"
    by code_simp
  have d: "fst (download_java linux_host stale_legacy_world) = Inr ''/home/u/acdc-java/linux/jre1.8.0_301''"
    by code_simp
  have e: "length (log (snd (download_java linux_host stale_legacy_world))) = 10"
    by code_simp
  have f: "fs stale_legacy_world ''/home/u/.acdc-java/notes.txt'' = Some (File [9])"
    "log stale_legacy_world = []"
    by (simp_all add: stale_legacy_world_def)
  show ?thesis
    using legacy_directory_untouched [of linux_host "''/home/u/.acdc-java/notes.txt''" stale_legacy_world]
      a b c d e f
    by simp
qed

end
